theory Spec2Isabelle
  imports Main
begin

text \<open>
  A model of the project creator of mpflow's command line tool: the class \<^verbatim>\<open>Creator\<close> with its
  seven tapable hooks, \<^verbatim>\<open>CreatorAPI\<close> through which plugins tap them, \<^verbatim>\<open>getTemplatePath\<close>,
  \<^verbatim>\<open>create\<close>, \<^verbatim>\<open>installPlugin\<close>, \<^verbatim>\<open>resolvePluginInfos\<close> and \<^verbatim>\<open>initPlugins\<close>. Promises that
  are awaited become computations over an explicit world that fulfil with a value, reject
  with an error or never settle; every run also yields a record of what happened, which the
  theorems are about. Console output is not modelled.
\<close>

section \<open>Strings\<close>

text \<open>
  JavaScript strings are modelled as \<^typ>\<open>string\<close>, a list of characters, one per code unit
  (code units above 255 are outside the model; the markers the code looks for are ASCII).
  \<^verbatim>\<open>s.startsWith(p)\<close> compares the first \<open>length p\<close> code units, \<^verbatim>\<open>s.substr(n)\<close> drops the
  first \<open>n\<close>, the regular expression \<^verbatim>\<open>/^https?:\/\//\<close> accepts exactly the strings that start
  with \<^verbatim>\<open>http://\<close> or \<^verbatim>\<open>https://\<close> (case sensitive), and \<^verbatim>\<open>s.trim()\<close> removes white space and
  line terminators from both ends.
\<close>

definition startsWith :: "string \<Rightarrow> string \<Rightarrow> bool" where
  "startsWith s p = (take (length p) s = p)"

definition substr :: "string \<Rightarrow> nat \<Rightarrow> string" where
  "substr s n = drop n s"

definition is_white_space :: "char \<Rightarrow> bool" where
  "is_white_space c = ((of_char c :: nat) \<in> {9, 10, 11, 12, 13, 32, 160})"

definition trim :: "string \<Rightarrow> string" where
  "trim s = rev (dropWhile is_white_space (rev (dropWhile is_white_space s)))"

definition is_http_url :: "string \<Rightarrow> bool" where
  "is_http_url s = (startsWith s ''http://'' \<or> startsWith s ''https://'')"

section \<open>Values, the store and the outside world\<close>

text \<open>
  A JavaScript error value is a value of type \<open>error\<close>. A computation that ends without
  a result ends in one of two ways (type \<open>halt\<close>): its promise rejects with an error, or
  its promise never settles, so that whoever awaits it waits forever. The object
  \<^verbatim>\<open>files: Record<string, string>\<close> that \<^verbatim>\<open>create()\<close> shares between stages lives in a
  store of objects: handlers receive its address, and every mutation goes through the
  store. Everything outside the JavaScript heap (disk, network, child processes) is the
  component \<open>ext\<close> of the world, of a type the model leaves open.
\<close>

datatype error = Error string

datatype halt = Rejected error | Pending

type_synonym addr = nat

type_synonym fileset = "(string \<times> string) list"

record 'x world =
  objects :: "addr \<Rightarrow> fileset"
  lim :: addr
  ext :: 'x

text \<open>\<^verbatim>\<open>const files = {}\<close>: a fresh, empty object.\<close>

definition new_object :: "'x world \<Rightarrow> addr \<times> 'x world" where
  "new_object w = (lim w, w\<lparr>objects := (objects w)(lim w := []), lim := Suc (lim w)\<rparr>)"

text \<open>\<^verbatim>\<open>target[k] = v\<close> on an object kept as an association list, and \<^verbatim>\<open>Object.assign\<close>.\<close>

fun set_prop :: "string \<Rightarrow> string \<Rightarrow> fileset \<Rightarrow> fileset" where
  "set_prop k v [] = [(k, v)]"
| "set_prop k v ((k', v') # kvs) =
     (if k = k' then (k, v) # kvs else (k', v') # set_prop k v kvs)"

definition object_assign :: "fileset \<Rightarrow> fileset \<Rightarrow> fileset" where
  "object_assign target source = fold (\<lambda>(k, v). set_prop k v) source target"

section \<open>Effects\<close>

text \<open>
  An asynchronous computation that is awaited is a function from the world to its outcome
  (\<open>Inr\<close>: the promise fulfilled with a value; \<open>Inl (Rejected e)\<close>: it rejected;
  \<open>Inl Pending\<close>: it never settles), the calls it made, in order, and the world it leaves
  behind. A computation that does not fulfil keeps the effects it had, and nothing that was
  to follow it happens.
\<close>

type_synonym ('x, 'e, 'a) io = "'x world \<Rightarrow> (halt + 'a) \<times> 'e list \<times> 'x world"

definition ret :: "'a \<Rightarrow> ('x, 'e, 'a) io" where
  "ret a w = (Inr a, [], w)"

definition bind :: "('x, 'e, 'a) io \<Rightarrow> ('a \<Rightarrow> ('x, 'e, 'b) io) \<Rightarrow> ('x, 'e, 'b) io" where
  "bind m f w =
     (case m w of
        (Inl e, tr, w') \<Rightarrow> (Inl e, tr, w')
      | (Inr a, tr, w') \<Rightarrow> (case f a w' of (r, tr', w'') \<Rightarrow> (r, tr @ tr', w'')))"

definition outcome :: "'r \<times> 'e list \<times> 'w \<Rightarrow> 'r" where
  "outcome r = fst r"

definition trace :: "'r \<times> 'e list \<times> 'w \<Rightarrow> 'e list" where
  "trace r = fst (snd r)"

definition final :: "'r \<times> 'e list \<times> 'w \<Rightarrow> 'w" where
  "final r = snd (snd r)"

text \<open>
  The calls that leave the process or touch the disk. \<open>Generator\<close> is the generator object
  of \<^verbatim>\<open>./Generator\<close> as the creator builds it: its context, its plugin ids and the file
  processors registered on it.
\<close>

datatype file_processor =
  Transform string string string string "string list"
  \<comment> \<open>\<^verbatim>\<open>processFile(id, glob, (file, api) => api.transform(require(module).default,
      {fieldName, items}))\<close>\<close>

record generator =
  gen_context :: string
  gen_plugins :: "string list"
  gen_processors :: "file_processor list"

datatype ext_event =
    TmpDir
  | TmpRemove string
  | ExecSync string
  | AxiosGet string
  | TarExtract string
  | RenderFiles string string string string
  | SyncFiles string fileset
  | InstallNodeModules string "string list option"
  | GetBuiltInPlugins string
  | Generate generator bool

text \<open>
  An outside call works on the outside world only: it cannot reach the objects of the
  JavaScript heap. \<open>call\<close> records which call was made.
\<close>

type_synonym ('x, 'a) prim = "'x \<Rightarrow> (halt + 'a) \<times> 'x"

definition call :: "ext_event \<Rightarrow> ('x, 'a) prim \<Rightarrow> ('x, ext_event, 'a) io" where
  "call ev p w = (case p (ext w) of (r, x') \<Rightarrow> (r, [ev], w\<lparr>ext := x'\<rparr>))"

text \<open>
  The libraries and helper modules the creator calls, as parameters: \<^verbatim>\<open>path.resolve\<close> and
  \<^verbatim>\<open>path.join\<close>; \<^verbatim>\<open>tmp.dir\<close>; \<^verbatim>\<open>child_process.execSync\<close>; \<^verbatim>\<open>axios.get\<close> with a stream response;
  piping a stream into \<^verbatim>\<open>tar.x({C: dir})\<close> until it closes or fails; and \<^verbatim>\<open>renderFiles\<close>,
  \<^verbatim>\<open>syncFiles\<close>, \<^verbatim>\<open>installNodeModules\<close>, \<^verbatim>\<open>getLocalService\<close> of \<^verbatim>\<open>./utils\<close> and
  \<^verbatim>\<open>Generator.generate\<close> of \<^verbatim>\<open>./Generator\<close>. Each call may succeed, fail, or never come
  back (the promise around the extraction, for one, settles only when the \<^verbatim>\<open>tar\<close> stream
  closes or fails).
\<close>

type_synonym stream = string

record 'x env =
  path_resolve :: "string \<Rightarrow> string"
  path_join :: "string list \<Rightarrow> string"
  tmp_dir :: "('x, string) prim"
  execSync :: "string \<Rightarrow> ('x, string) prim"
  axios_get :: "string \<Rightarrow> ('x, stream) prim"
  tar_x :: "stream \<Rightarrow> string \<Rightarrow> ('x, unit) prim"
  renderFiles :: "string \<Rightarrow> string \<Rightarrow> string \<times> string \<Rightarrow> ('x, fileset) prim"
  syncFiles :: "string \<Rightarrow> fileset \<Rightarrow> ('x, unit) prim"
  installNodeModules :: "string \<Rightarrow> string list option \<Rightarrow> ('x, unit) prim"
  getBuiltInPlugins :: "string \<Rightarrow> ('x, string list) prim"
  generate :: "generator \<Rightarrow> bool \<Rightarrow> ('x, unit) prim"

section \<open>Creator.getTemplatePath\<close>

text \<open>
  The download of \<open>downloadUrl\<close> and its extraction into the temporary directory (the
  part of \<^verbatim>\<open>getTemplatePath\<close> after the download URL is known).
\<close>

definition download_extract :: "'x env \<Rightarrow> string \<Rightarrow> string \<Rightarrow> ('x, ext_event, string) io" where
  "download_extract env tmpPath downloadUrl =
     bind (call (AxiosGet downloadUrl) (axios_get env downloadUrl)) (\<lambda>downloadStream.
     bind (call (TarExtract tmpPath) (tar_x env downloadStream tmpPath)) (\<lambda>_.
     ret (path_join env [tmpPath, ''package'', ''template''])))"

definition npm_info_command :: "string \<Rightarrow> string" where
  "npm_info_command templateName = ''npm info '' @ templateName @ '' dist.tarball''"

definition getTemplatePath :: "'x env \<Rightarrow> string \<Rightarrow> ('x, ext_event, string) io" where
  "getTemplatePath env templateName =
     (if startsWith templateName ''file://'' then
        ret (path_join env [path_resolve env (substr templateName 7), ''template''])
      else
        bind (call TmpDir (tmp_dir env)) (\<lambda>tmpPath.
        bind (if \<not> is_http_url templateName
              then bind (call (ExecSync (npm_info_command templateName))
                          (execSync env (npm_info_command templateName)))
                     (\<lambda>out. ret (trim out))
              else ret templateName) (\<lambda>downloadUrl.
        download_extract env tmpPath downloadUrl)))"

section \<open>Stages, hooks and tapable\<close>

datatype stage = Prepare | ResolveTemplate | Render | BeforeEmit | Emit | Init | AfterInit

definition stage_order :: "stage list" where
  "stage_order = [Prepare, ResolveTemplate, Render, BeforeEmit, Emit, Init, AfterInit]"


record infos =
  projectName :: string
  appId :: string
  templateName :: string

record render_infos =
  render_projectName :: string
  render_appId :: string
  templatePath :: string

text \<open>What a hook passes to a handler, and what a waterfall handler hands back.\<close>

datatype val =
    VInfos infos
  | VString string
  | VRender render_infos addr
  | VFiles addr
  | VEmit string addr
  | VUndefined

fun files_addr :: "val \<Rightarrow> addr option" where
  "files_addr (VRender ri a) = Some a"
| "files_addr (VFiles a) = Some a"
| "files_addr (VEmit c a) = Some a"
| "files_addr v = None"

definition snapshot :: "val \<Rightarrow> 'x world \<Rightarrow> fileset option" where
  "snapshot v w = map_option (objects w) (files_addr v)"

text \<open>
  What calling a tapped function gives: a promise that fulfils, rejects or never settles, an
  exception thrown before any promise is returned, or a value that is no promise (given
  here as tapable prints it).
\<close>

datatype 'r reply = Resolved 'r | RejectedWith error | NeverSettles | Thrown error | NoPromise string

fun resolved :: "'r reply \<Rightarrow> bool" where
  "resolved (Resolved r) = True"
| "resolved r = False"

text \<open>
  The observable run of \<^verbatim>\<open>create()\<close>: when a stage's \<^verbatim>\<open>promise(...)\<close> is called and how it
  ends (\<open>True\<close>: fulfilled), when a handler is called, with which arguments, and what the call
  gave, and the outside calls a handler makes. A handler event also records the contents of
  the \<^verbatim>\<open>files\<close> object its arguments refer to, as they are at that moment. The closing entry
  of a handler call is written whatever the call gave, and the closing entry of a stage also
  when the hook's promise never settles (with \<open>False\<close>): they are then the last entries of the
  record.
\<close>

datatype event =
    StageBegin stage
  | StageSettled stage bool
  | HandlerBegin stage string val "fileset option"
  | HandlerSettled stage string "val reply" "fileset option"
  | Ext stage string ext_event

type_synonym ('x, 'a, 'r) handler = "'a \<Rightarrow> 'x world \<Rightarrow> 'r reply \<times> ext_event list \<times> 'x world"

type_synonym ('x, 'a, 'r) taps = "(string \<times> ('x, 'a, 'r) handler) list"

text \<open>
  A function declared \<^verbatim>\<open>async\<close> always returns a promise: what its body throws rejects the
  promise.
\<close>

definition async_fn :: "('a \<Rightarrow> ('x, ext_event, 'r) io) \<Rightarrow> ('x, 'a, 'r) handler" where
  "async_fn f x w =
     (case f x w of
        (Inr r, evs, w') \<Rightarrow> (Resolved r, evs, w')
      | (Inl (Rejected e), evs, w') \<Rightarrow> (RejectedWith e, evs, w')
      | (Inl Pending, evs, w') \<Rightarrow> (NeverSettles, evs, w'))"

text \<open>
  How the promise of a hook's \<^verbatim>\<open>promise(...)\<close> takes a tapped function's reply (tapable 1,
  handlers tapped with \<^verbatim>\<open>tapPromise\<close>). The first tapped function is called inside the
  executor of the hook's promise, so what it throws rejects that promise, and so does the
  error tapable throws when it gets no promise back. Every later function is called from the
  fulfilment callback of the promise before it: an exception there rejects only the promise
  that \<^verbatim>\<open>then\<close> returned, which nobody holds (the runtime sees an unhandled rejection), and
  the hook's promise never settles.
\<close>

definition no_promise_error :: "string \<Rightarrow> error" where
  "no_promise_error v =
     Error (''Tap function (tapPromise) did not return promise (returned '' @ v @ '')'')"

fun settle :: "bool \<Rightarrow> 'r reply \<Rightarrow> halt + 'r" where
  "settle first (Resolved r) = Inr r"
| "settle first (RejectedWith e) = Inl (Rejected e)"
| "settle first NeverSettles = Inl Pending"
| "settle first (Thrown e) = (if first then Inl (Rejected e) else Inl Pending)"
| "settle first (NoPromise v) = (if first then Inl (Rejected (no_promise_error v)) else Inl Pending)"

text \<open>One handler call and what the hook makes of it, with the events around it.\<close>

definition run_handler ::
  "stage \<Rightarrow> string \<Rightarrow> val \<Rightarrow> ('r \<Rightarrow> val) \<Rightarrow> bool \<Rightarrow>
     ('x world \<Rightarrow> 'r reply \<times> ext_event list \<times> 'x world) \<Rightarrow> ('x, event, 'r) io" where
  "run_handler s n v out first m w =
     (case m w of (r, evs, w') \<Rightarrow>
        (settle first r, HandlerBegin s n v (snapshot v w) # map (Ext s n) evs @
            [HandlerSettled s n (map_reply out r) (snapshot v w')], w'))"

text \<open>
  tapable's \<^verbatim>\<open>AsyncSeriesHook\<close>: the handlers are called in the order they were tapped, each
  with the arguments of \<^verbatim>\<open>promise(...)\<close> and each awaited before the next; what a handler
  resolves to is dropped; the first rejection rejects the hook. The flag says whether the
  next handler is the first one tapped.
\<close>

fun series_taps ::
  "bool \<Rightarrow> stage \<Rightarrow> ('a \<Rightarrow> val) \<Rightarrow> ('x, 'a, 'r) taps \<Rightarrow> 'a \<Rightarrow> ('x, event, unit) io" where
  "series_taps first s view [] x = ret ()"
| "series_taps first s view ((n, h) # ts) x =
     bind (run_handler s n (view x) (\<lambda>_. VUndefined) first (h x))
       (\<lambda>_. series_taps False s view ts x)"

text \<open>
  tapable's \<^verbatim>\<open>AsyncSeriesWaterfallHook\<close>: the first handler gets the argument of
  \<^verbatim>\<open>promise(...)\<close>, every later one what the handler before it resolved to, and the hook
  resolves to what the last handler resolved to (to its argument when nothing is tapped).
  Handlers are typed as the source types them: they resolve to a value of the argument's type.
\<close>

fun waterfall_taps ::
  "bool \<Rightarrow> stage \<Rightarrow> ('a \<Rightarrow> val) \<Rightarrow> ('x, 'a, 'a) taps \<Rightarrow> 'a \<Rightarrow> ('x, event, 'a) io" where
  "waterfall_taps first s view [] x = ret x"
| "waterfall_taps first s view ((n, h) # ts) x =
     bind (run_handler s n (view x) view first (h x)) (\<lambda>y. waterfall_taps False s view ts y)"

definition fulfilled :: "halt + 'a \<Rightarrow> bool" where
  "fulfilled r = (case r of Inl e \<Rightarrow> False | Inr a \<Rightarrow> True)"

definition settled :: "stage \<Rightarrow> ('x, event, 'a) io \<Rightarrow> ('x, event, 'a) io" where
  "settled s m w =
     (case m w of (r, tr, w') \<Rightarrow> (r, StageBegin s # tr @ [StageSettled s (fulfilled r)], w'))"

definition promise_series ::
  "stage \<Rightarrow> ('a \<Rightarrow> val) \<Rightarrow> ('x, 'a, 'r) taps \<Rightarrow> 'a \<Rightarrow> ('x, event, unit) io" where
  "promise_series s view ts x = settled s (series_taps True s view ts x)"

definition promise_waterfall ::
  "stage \<Rightarrow> ('a \<Rightarrow> val) \<Rightarrow> ('x, 'a, 'a) taps \<Rightarrow> 'a \<Rightarrow> ('x, event, 'a) io" where
  "promise_waterfall s view ts x = settled s (waterfall_taps True s view ts x)"

section \<open>The creator\<close>

record 'x hooks =
  prepare :: "('x, infos, infos) taps"
  resolveTemplate :: "('x, string, string) taps"
  render :: "('x, render_infos \<times> addr, render_infos option) taps"
  beforeEmit :: "('x, addr, unit) taps"
  emit :: "('x, string \<times> addr, unit) taps"
  init :: "('x, string, unit) taps"
  afterInit :: "('x, string, unit) taps"

record 'x creator =
  creator_context :: string
  creator_templateName :: "string option"
  creator_projectName :: "string option"
  creator_appId :: "string option"
  hooks :: "'x hooks"

record creator_options =
  opt_templateName :: "string option"
  opt_projectName :: "string option"
  opt_appId :: "string option"

text \<open>The handlers the constructor taps under the name \<^verbatim>\<open>creator\<close>.\<close>

definition assign_files :: "addr \<Rightarrow> fileset \<Rightarrow> ('x, ext_event, unit) io" where
  "assign_files files rendered w =
     (Inr (), [], w\<lparr>objects := (objects w)(files := object_assign (objects w files) rendered)\<rparr>)"

definition creator_resolveTemplate :: "'x env \<Rightarrow> ('x, string, string) handler" where
  "creator_resolveTemplate env = async_fn (\<lambda>name. getTemplatePath env name)"

definition creator_render :: "'x env \<Rightarrow> ('x, render_infos \<times> addr, render_infos option) handler" where
  "creator_render env = async_fn (\<lambda>(ri, files).
     bind (call (RenderFiles (templatePath ri) ''**/*'' (render_projectName ri) (render_appId ri))
             (renderFiles env (templatePath ri) ''**/*'' (render_projectName ri, render_appId ri)))
       (\<lambda>rendered. bind (assign_files files rendered) (\<lambda>_. ret None)))"

definition creator_emit :: "'x env \<Rightarrow> ('x, string \<times> addr, unit) handler" where
  "creator_emit env = async_fn (\<lambda>(ctx, files) w.
     call (SyncFiles ctx (objects w files)) (syncFiles env ctx (objects w files)) w)"

definition new_Generator :: "string \<Rightarrow> string list \<Rightarrow> generator" where
  "new_Generator ctx plugins = \<lparr>gen_context = ctx, gen_plugins = plugins, gen_processors = []\<rparr>"

definition processFile :: "file_processor \<Rightarrow> generator \<Rightarrow> generator" where
  "processFile p g = g\<lparr>gen_processors := gen_processors g @ [p]\<rparr>"

definition creator_init :: "'x env \<Rightarrow> string \<Rightarrow> ('x, string, unit) handler" where
  "creator_init env this_context = async_fn (\<lambda>ctx.
     bind (call (InstallNodeModules ctx None) (installNodeModules env ctx None)) (\<lambda>_.
     bind (call (InstallNodeModules this_context (Some [''@mpflow/service'']))
             (installNodeModules env this_context (Some [''@mpflow/service'']))) (\<lambda>_.
     bind (call (GetBuiltInPlugins this_context) (getBuiltInPlugins env this_context)) (\<lambda>plugins.
     call (Generate (new_Generator this_context plugins) False)
       (generate env (new_Generator this_context plugins) False)))))"

definition new_Creator :: "'x env \<Rightarrow> string \<Rightarrow> creator_options \<Rightarrow> 'x creator" where
  "new_Creator env ctx options =
     \<lparr>creator_context = ctx,
      creator_templateName = opt_templateName options,
      creator_projectName = opt_projectName options,
      creator_appId = opt_appId options,
      hooks = \<lparr>prepare = [],
               resolveTemplate = [(''creator'', creator_resolveTemplate env)],
               render = [(''creator'', creator_render env)],
               beforeEmit = [],
               emit = [(''creator'', creator_emit env)],
               init = [(''creator'', creator_init env ctx)],
               afterInit = []\<rparr>\<rparr>"

subsection \<open>CreatorAPI and plugins\<close>

text \<open>
  \<^verbatim>\<open>tapPromise(name, handler)\<close> with a plain name adds the handler after those already
  tapped. \<^verbatim>\<open>CreatorAPI\<close> taps under the id of the plugin it was made for; it has a method
  for every hook but \<^verbatim>\<open>afterInit\<close>.
\<close>

definition tapPrepare :: "string \<Rightarrow> ('x, infos, infos) handler \<Rightarrow> 'x creator \<Rightarrow> 'x creator" where
  "tapPrepare pid h c = c\<lparr>hooks := (hooks c)\<lparr>prepare := prepare (hooks c) @ [(pid, h)]\<rparr>\<rparr>"

definition tapResolveTemplate :: "string \<Rightarrow> ('x, string, string) handler \<Rightarrow> 'x creator \<Rightarrow> 'x creator" where
  "tapResolveTemplate pid h c =
     c\<lparr>hooks := (hooks c)\<lparr>resolveTemplate := resolveTemplate (hooks c) @ [(pid, h)]\<rparr>\<rparr>"

definition tapRender ::
  "string \<Rightarrow> ('x, render_infos \<times> addr, render_infos option) handler \<Rightarrow> 'x creator \<Rightarrow> 'x creator" where
  "tapRender pid h c = c\<lparr>hooks := (hooks c)\<lparr>render := render (hooks c) @ [(pid, h)]\<rparr>\<rparr>"

definition tapBeforeEmit :: "string \<Rightarrow> ('x, addr, unit) handler \<Rightarrow> 'x creator \<Rightarrow> 'x creator" where
  "tapBeforeEmit pid h c = c\<lparr>hooks := (hooks c)\<lparr>beforeEmit := beforeEmit (hooks c) @ [(pid, h)]\<rparr>\<rparr>"

definition tapEmit :: "string \<Rightarrow> ('x, string \<times> addr, unit) handler \<Rightarrow> 'x creator \<Rightarrow> 'x creator" where
  "tapEmit pid h c = c\<lparr>hooks := (hooks c)\<lparr>emit := emit (hooks c) @ [(pid, h)]\<rparr>\<rparr>"

definition tapInit :: "string \<Rightarrow> ('x, string, unit) handler \<Rightarrow> 'x creator \<Rightarrow> 'x creator" where
  "tapInit pid h c = c\<lparr>hooks := (hooks c)\<lparr>init := init (hooks c) @ [(pid, h)]\<rparr>\<rparr>"

text \<open>
  A plugin's \<^verbatim>\<open>creator(api)\<close> function is modelled by what it does with the \<^verbatim>\<open>CreatorAPI\<close> it is
  given: the taps it makes, in order, possibly ending in an exception. The handlers it taps
  are arbitrary functions over the world, whatever they give when called (a promise that
  fulfils, rejects or never settles, an exception, a value that is no promise); they do not
  tap further handlers and do not call the hooks themselves.
\<close>

datatype 'x api_call =
    TapPrepare "('x, infos, infos) handler"
  | TapResolveTemplate "('x, string, string) handler"
  | TapRender "('x, render_infos \<times> addr, render_infos option) handler"
  | TapBeforeEmit "('x, addr, unit) handler"
  | TapEmit "('x, string \<times> addr, unit) handler"
  | TapInit "('x, string, unit) handler"
  | Throw error

record 'x plugin =
  plugin_id :: string
  plugin_creator :: "'x api_call list option"

fun api_calls :: "string \<Rightarrow> 'x api_call list \<Rightarrow> 'x creator \<Rightarrow> error option \<times> 'x creator" where
  "api_calls pid [] c = (None, c)"
| "api_calls pid (TapPrepare h # cs) c = api_calls pid cs (tapPrepare pid h c)"
| "api_calls pid (TapResolveTemplate h # cs) c = api_calls pid cs (tapResolveTemplate pid h c)"
| "api_calls pid (TapRender h # cs) c = api_calls pid cs (tapRender pid h c)"
| "api_calls pid (TapBeforeEmit h # cs) c = api_calls pid cs (tapBeforeEmit pid h c)"
| "api_calls pid (TapEmit h # cs) c = api_calls pid cs (tapEmit pid h c)"
| "api_calls pid (TapInit h # cs) c = api_calls pid cs (tapInit pid h c)"
| "api_calls pid (Throw e # cs) c = (Some e, c)"

text \<open>
  \<^verbatim>\<open>resolvePluginInfos\<close>: the three built-in creator plugins, then the inline ones. The
  modules it requires are parameters.
\<close>

definition resolvePluginInfos ::
  "'m \<Rightarrow> 'm \<Rightarrow> 'm \<Rightarrow> (string \<times> 'm) list \<Rightarrow> (string \<times> 'm) list" where
  "resolvePluginInfos request_app_id recommended init_git inlinePlugins =
     [(''@mpflow/cli/lib/creator-plugins/request-app-id'', request_app_id),
      (''@mpflow/cli/lib/creator-plugins/recommended'', recommended),
      (''@mpflow/cli/lib/creator-plugins/init-git'', init_git)] @ inlinePlugins"

text \<open>
  \<^verbatim>\<open>initPlugins\<close>, given what \<^verbatim>\<open>this.resolvePlugins()\<close> returned: every plugin that has a
  \<^verbatim>\<open>creator\<close> function gets a \<^verbatim>\<open>CreatorAPI\<close> under its own id, in order.
\<close>

fun initPlugins :: "'x plugin list \<Rightarrow> 'x creator \<Rightarrow> error option \<times> 'x creator" where
  "initPlugins [] c = (None, c)"
| "initPlugins (p # ps) c =
     (case plugin_creator p of
        None \<Rightarrow> initPlugins ps c
      | Some calls \<Rightarrow>
          (case api_calls (plugin_id p) calls c of
             (Some e, c') \<Rightarrow> (Some e, c')
           | (None, c') \<Rightarrow> initPlugins ps c'))"

subsection \<open>Creator.create\<close>

definition or_empty :: "string option \<Rightarrow> string" where
  "or_empty v = (case v of None \<Rightarrow> [] | Some s \<Rightarrow> if s = [] then [] else s)"

definition initial_infos :: "'x creator \<Rightarrow> infos" where
  "initial_infos c =
     \<lparr>projectName = or_empty (creator_projectName c),
      appId = or_empty (creator_appId c),
      templateName = or_empty (creator_templateName c)\<rparr>"

definition alloc_files :: "('x, event, addr) io" where
  "alloc_files w = (case new_object w of (a, w') \<Rightarrow> (Inr a, [], w'))"

text \<open>The body of \<^verbatim>\<open>create()\<close> after \<^verbatim>\<open>await this.initPlugins()\<close>.\<close>

definition create_stages :: "'x creator \<Rightarrow> ('x, event, unit) io" where
  "create_stages c =
     bind (promise_waterfall Prepare VInfos (prepare (hooks c)) (initial_infos c)) (\<lambda>i.
     bind (promise_waterfall ResolveTemplate VString (resolveTemplate (hooks c)) (templateName i))
       (\<lambda>path.
     bind alloc_files (\<lambda>files.
     bind (promise_series Render (\<lambda>(ri, a). VRender ri a) (render (hooks c))
             (\<lparr>render_projectName = projectName i, render_appId = appId i,
               templatePath = path\<rparr>, files)) (\<lambda>_.
     bind (promise_series BeforeEmit VFiles (beforeEmit (hooks c)) files) (\<lambda>_.
     bind (promise_series Emit (\<lambda>(ctx, a). VEmit ctx a) (emit (hooks c)) (creator_context c, files)) (\<lambda>_.
     bind (promise_series Init VString (init (hooks c)) (creator_context c)) (\<lambda>_.
     promise_series AfterInit VString (afterInit (hooks c)) (creator_context c))))))))"

definition create ::
  "'x plugin list \<Rightarrow> 'x creator \<Rightarrow> 'x world \<Rightarrow>
     ((halt + unit) \<times> event list \<times> 'x world) \<times> 'x creator" where
  "create plugins c w =
     (case initPlugins plugins c of
        (Some e, c') \<Rightarrow> ((Inl (Rejected e), [], w), c')
      | (None, c') \<Rightarrow> (create_stages c' w, c'))"

subsection \<open>Creator.installPlugin\<close>

definition add_to_exports :: string where
  "add_to_exports = ''@mpflow/service-core/lib/codemods/add-to-exports''"

definition installPlugin :: "'x env \<Rightarrow> 'x creator \<Rightarrow> string list \<Rightarrow> ('x, ext_event, unit) io" where
  "installPlugin env c pluginNames =
     (if length pluginNames = 0 then ret ()
      else
        bind (call (InstallNodeModules (creator_context c) (Some pluginNames))
                (installNodeModules env (creator_context c) (Some pluginNames))) (\<lambda>_.
        (let generator = processFile
               (Transform ''creator'' ''mpflow.config.js'' add_to_exports ''plugins'' pluginNames)
               (new_Generator (creator_context c) pluginNames)
         in call (Generate generator True) (generate env generator True))))"

section \<open>Reading a run\<close>

text \<open>
  Functions that read the record of a run: which outside calls a template lookup made, which
  stages began and in which order, whether calls and settlements are properly nested, which
  handlers ran, and how values and the contents of the \<^verbatim>\<open>files\<close> object flow from one
  handler to the next.
\<close>

definition is_lookup :: "ext_event \<Rightarrow> bool" where
  "is_lookup ev = (case ev of ExecSync cmd \<Rightarrow> True | _ \<Rightarrow> False)"

definition is_download :: "ext_event \<Rightarrow> bool" where
  "is_download ev = (case ev of AxiosGet url \<Rightarrow> True | _ \<Rightarrow> False)"

definition is_removal :: "ext_event \<Rightarrow> bool" where
  "is_removal ev = (case ev of TmpRemove p \<Rightarrow> True | _ \<Rightarrow> False)"

fun stage_of :: "event \<Rightarrow> stage" where
  "stage_of (StageBegin s) = s"
| "stage_of (StageSettled s ok) = s"
| "stage_of (HandlerBegin s n v sn) = s"
| "stage_of (HandlerSettled s n r sn) = s"
| "stage_of (Ext s n ev) = s"

fun begun_stages :: "event list \<Rightarrow> stage list" where
  "begun_stages [] = []"
| "begun_stages (StageBegin s # tr) = s # begun_stages tr"
| "begun_stages (ev # tr) = begun_stages tr"

datatype phase = Idle | InStage stage | InHandler stage string

fun step :: "phase \<Rightarrow> event \<Rightarrow> phase option" where
  "step Idle (StageBegin s) = Some (InStage s)"
| "step (InStage s) (HandlerBegin s' n v sn) = (if s' = s then Some (InHandler s n) else None)"
| "step (InHandler s n) (Ext s' n' ev) = (if s' = s \<and> n' = n then Some (InHandler s n) else None)"
| "step (InHandler s n) (HandlerSettled s' n' r sn) =
     (if s' = s \<and> n' = n then Some (InStage s) else None)"
| "step (InStage s) (StageSettled s' ok) = (if s' = s then Some Idle else None)"
| "step p ev = None"

fun scan :: "phase \<Rightarrow> event list \<Rightarrow> phase option" where
  "scan p [] = Some p"
| "scan p (ev # tr) = (case step p ev of None \<Rightarrow> None | Some q \<Rightarrow> scan q tr)"

fun handlers_begun :: "stage \<Rightarrow> event list \<Rightarrow> string list" where
  "handlers_begun s [] = []"
| "handlers_begun s (HandlerBegin s' n v sn # tr) =
     (if s' = s then n # handlers_begun s tr else handlers_begun s tr)"
| "handlers_begun s (ev # tr) = handlers_begun s tr"


fun waterfall_flow :: "stage \<Rightarrow> val \<Rightarrow> event list \<Rightarrow> val option" where
  "waterfall_flow s v [] = Some v"
| "waterfall_flow s v (HandlerBegin s' n a sn # tr) =
     (if s' = s \<and> a \<noteq> v then None else waterfall_flow s v tr)"
| "waterfall_flow s v (HandlerSettled s' n (Resolved y) sn # tr) =
     (if s' = s then waterfall_flow s y tr else waterfall_flow s v tr)"
| "waterfall_flow s v (ev # tr) = waterfall_flow s v tr"

fun series_flow :: "stage \<Rightarrow> val \<Rightarrow> event list \<Rightarrow> bool" where
  "series_flow s v [] = True"
| "series_flow s v (HandlerBegin s' n a sn # tr) =
     ((s' \<noteq> s \<or> a = v) \<and> series_flow s v tr)"
| "series_flow s v (HandlerSettled s' n (Resolved y) sn # tr) =
     ((s' \<noteq> s \<or> y = VUndefined) \<and> series_flow s v tr)"
| "series_flow s v (ev # tr) = series_flow s v tr"

fun files_flow :: "fileset \<Rightarrow> event list \<Rightarrow> fileset option" where
  "files_flow cur [] = Some cur"
| "files_flow cur (HandlerBegin s n v (Some fs) # tr) =
     (if fs = cur then files_flow cur tr else None)"
| "files_flow cur (HandlerSettled s n r (Some fs) # tr) = files_flow fs tr"
| "files_flow cur (ev # tr) = files_flow cur tr"




fun tap_names :: "'x creator \<Rightarrow> stage \<Rightarrow> string list" where
  "tap_names c Prepare = map fst (prepare (hooks c))"
| "tap_names c ResolveTemplate = map fst (resolveTemplate (hooks c))"
| "tap_names c Render = map fst (render (hooks c))"
| "tap_names c BeforeEmit = map fst (beforeEmit (hooks c))"
| "tap_names c Emit = map fst (emit (hooks c))"
| "tap_names c Init = map fst (init (hooks c))"
| "tap_names c AfterInit = map fst (afterInit (hooks c))"

definition extends :: "'x creator \<Rightarrow> 'x creator \<Rightarrow> bool" where
  "extends c c' =
     (creator_context c' = creator_context c \<and>
      creator_templateName c' = creator_templateName c \<and>
      creator_projectName c' = creator_projectName c \<and>
      creator_appId c' = creator_appId c \<and>
      (\<exists>added. prepare (hooks c') = prepare (hooks c) @ added) \<and>
      (\<exists>added. resolveTemplate (hooks c') = resolveTemplate (hooks c) @ added) \<and>
      (\<exists>added. render (hooks c') = render (hooks c) @ added) \<and>
      (\<exists>added. beforeEmit (hooks c') = beforeEmit (hooks c) @ added) \<and>
      (\<exists>added. emit (hooks c') = emit (hooks c) @ added) \<and>
      (\<exists>added. init (hooks c') = init (hooks c) @ added) \<and>
      afterInit (hooks c') = afterInit (hooks c))"

definition map_result :: "('r \<Rightarrow> 'q) \<Rightarrow> ('x, 'a, 'r) handler \<Rightarrow> ('x, 'a, 'q) handler" where
  "map_result f h = (\<lambda>x w. case h x w of (r, evs, w') \<Rightarrow> (map_reply f r, evs, w'))"

fun quiet :: "event \<Rightarrow> bool" where
  "quiet (Ext s n e) = (\<not> is_removal e)"
| "quiet ev = True"

fun removed_paths :: "event list \<Rightarrow> string list" where
  "removed_paths [] = []"
| "removed_paths (Ext s n (TmpRemove p) # tr) = p # removed_paths tr"
| "removed_paths (ev # tr) = removed_paths tr"

definition never_removes :: "('a \<Rightarrow> 'x world \<Rightarrow> 'r \<times> ext_event list \<times> 'x world) \<Rightarrow> bool" where
  "never_removes h = (\<forall>x w. \<forall>e\<in>set (trace (h x w)). \<not> is_removal e)"

definition quiet_hooks :: "'x hooks \<Rightarrow> bool" where
  "quiet_hooks hs =
     ((\<forall>t\<in>set (prepare hs). never_removes (snd t)) \<and>
      (\<forall>t\<in>set (resolveTemplate hs). never_removes (snd t)) \<and>
      (\<forall>t\<in>set (render hs). never_removes (snd t)) \<and>
      (\<forall>t\<in>set (beforeEmit hs). never_removes (snd t)) \<and>
      (\<forall>t\<in>set (emit hs). never_removes (snd t)) \<and>
      (\<forall>t\<in>set (init hs). never_removes (snd t)) \<and>
      (\<forall>t\<in>set (afterInit hs). never_removes (snd t)))"

section \<open>The two kinds of stage, as specified\<close>

text \<open>
  The specification describes a stage by its result. A waterfall stage hands the first
  handler the input of the stage and every later handler the output of the one before it,
  and its result is the output of the last handler. A series stage runs its handlers in
  order on the same input, ignores what they return, and its result is the input it was
  given. The three functions below are written from these words, not from the code, to be
  compared with it: a stage has a result (and leaves a world) when every handler resolved,
  and the pipeline feeds each stage from the result of the stage before it.
\<close>

fun spec_waterfall :: "('x, 'a, 'a) taps \<Rightarrow> 'a \<Rightarrow> 'x world \<Rightarrow> ('a \<times> 'x world) option" where
  "spec_waterfall [] x w = Some (x, w)"
| "spec_waterfall ((n, h) # ts) x w =
     (case h x w of
        (Resolved y, evs, w') \<Rightarrow> spec_waterfall ts y w'
      | (rep, evs, w') \<Rightarrow> None)"

fun spec_series :: "('x, 'a, 'r) taps \<Rightarrow> 'a \<Rightarrow> 'x world \<Rightarrow> ('a \<times> 'x world) option" where
  "spec_series [] x w = Some (x, w)"
| "spec_series ((n, h) # ts) x w =
     (case h x w of
        (Resolved y, evs, w') \<Rightarrow> spec_series ts x w'
      | (rep, evs, w') \<Rightarrow> None)"

definition spec_create :: "'x creator \<Rightarrow> 'x world \<Rightarrow> 'x world option" where
  "spec_create c w =
     Option.bind (spec_waterfall (prepare (hooks c)) (initial_infos c) w) (\<lambda>(i, w1).
     Option.bind (spec_waterfall (resolveTemplate (hooks c)) (templateName i) w1) (\<lambda>(path, w2).
     Option.bind (spec_series (render (hooks c))
        (\<lparr>render_projectName = projectName i, render_appId = appId i, templatePath = path\<rparr>,
         fst (new_object w2)) (snd (new_object w2))) (\<lambda>((ri, files), w3).
     Option.bind (spec_series (beforeEmit (hooks c)) files w3) (\<lambda>(files', w4).
     Option.bind (spec_series (emit (hooks c)) (creator_context c, files') w4) (\<lambda>((ctx, files''), w5).
     Option.bind (spec_series (init (hooks c)) ctx w5) (\<lambda>(ctx', w6).
     Option.bind (spec_series (afterInit (hooks c)) ctx' w6) (\<lambda>(ctx'', w7). Some w7)))))))"

text \<open>What a computation of the code resolved to, and the world it left, if it fulfilled.\<close>

definition result_of :: "(halt + 'a) \<times> 'e list \<times> 'w \<Rightarrow> ('a \<times> 'w) option" where
  "result_of r = (case outcome r of Inr y \<Rightarrow> Some (y, final r) | Inl h \<Rightarrow> None)"

section \<open>An example project\<close>

text \<open>
  A small outside world for running the model on concrete inputs: the disk is the list of
  paths that exist, the working directory is \<^verbatim>\<open>/work\<close>, \<^verbatim>\<open>tmp.dir\<close> creates \<^verbatim>\<open>/tmp/tmp-1\<close>,
  the registry answers every query with one tarball URL followed by a newline, and every
  download and installation succeeds. One plugin renames the project, adds a file before
  emit and taps emit; another one taps a \<^verbatim>\<open>beforeEmit\<close> handler whose promise rejects; a
  third one taps a \<^verbatim>\<open>beforeEmit\<close> handler that is no \<^verbatim>\<open>async\<close> function and throws when called.
\<close>

definition demo_env :: "string list env" where
  "demo_env =
     \<lparr>path_resolve = (\<lambda>p. if startsWith p ''/'' then p
                           else if startsWith p ''./'' then ''/work/'' @ drop 2 p
                           else ''/work/'' @ p),
      path_join = (\<lambda>ps. foldr (\<lambda>a b. if b = [] then a else a @ ''/'' @ b) ps []),
      tmp_dir = (\<lambda>fs. (Inr ''/tmp/tmp-1'', ''/tmp/tmp-1'' # fs)),
      execSync = (\<lambda>cmd w. (Inr (''https://registry.example/pkg.tgz'' @ [CHR 0x0A]), w)),
      axios_get = (\<lambda>url w. (Inr ''tarball'', w)),
      tar_x = (\<lambda>s dir fs. (Inr (), (dir @ ''/package/template'') # fs)),
      renderFiles = (\<lambda>dir glob vars w. (Inr [(''app.json'', fst vars)], w)),
      syncFiles = (\<lambda>dir files fs. (Inr (), map (\<lambda>(k, v). dir @ ''/'' @ k) files @ fs)),
      installNodeModules = (\<lambda>dir ms w. (Inr (), w)),
      getBuiltInPlugins = (\<lambda>dir w. (Inr [''@mpflow/plugin-babel''], w)),
      generate = (\<lambda>g b w. (Inr (), w))\<rparr>"

definition demo_world :: "string list world" where
  "demo_world = \<lparr>objects = (\<lambda>a. []), lim = 0, ext = []\<rparr>"

definition demo_options :: creator_options where
  "demo_options = \<lparr>opt_templateName = Some ''some-package'', opt_projectName = None,
                    opt_appId = None\<rparr>"

definition demo_creator :: "string list creator" where
  "demo_creator = new_Creator demo_env ''/proj'' demo_options"

definition demo_plugin :: "string list plugin" where
  "demo_plugin =
     \<lparr>plugin_id = ''demo-plugin'',
      plugin_creator = Some
        [TapPrepare (async_fn (\<lambda>i. ret (i\<lparr>projectName := ''demo''\<rparr>))),
         TapBeforeEmit (async_fn (\<lambda>a w. (Inr (), [],
            w\<lparr>objects := (objects w)(a := set_prop ''README.md'' ''hello'' (objects w a))\<rparr>))),
         TapEmit (async_fn (\<lambda>x. ret ()))]\<rparr>"

definition failing_plugin :: "string list plugin" where
  "failing_plugin =
     \<lparr>plugin_id = ''failing-plugin'',
      plugin_creator = Some [TapBeforeEmit (\<lambda>a w. (RejectedWith (Error ''boom''), [], w))]\<rparr>"

definition throwing_plugin :: "string list plugin" where
  "throwing_plugin =
     \<lparr>plugin_id = ''throwing-plugin'',
      plugin_creator = Some [TapBeforeEmit (\<lambda>a w. (Thrown (Error ''boom''), [], w))]\<rparr>"

definition demo_remote_options :: creator_options where
  "demo_remote_options = \<lparr>opt_templateName = Some ''https://example.com/template.tgz'',
                           opt_projectName = Some ''shop'', opt_appId = Some ''wx123''\<rparr>"

definition demo_remote_creator :: "string list creator" where
  "demo_remote_creator = new_Creator demo_env ''/proj'' demo_remote_options"

definition demo_bare_options :: creator_options where
  "demo_bare_options = \<lparr>opt_templateName = None, opt_projectName = None, opt_appId = None\<rparr>"

section \<open>Lemmas\<close>

lemma registry_trace_cases:
  assumes "\<not> startsWith t ''file://''" "\<not> is_http_url t"
  shows "trace (getTemplatePath env t w) \<in>
    {[TmpDir], [TmpDir, ExecSync (npm_info_command t)]} \<or>
    (\<exists>u. trace (getTemplatePath env t w) = [TmpDir, ExecSync (npm_info_command t), AxiosGet u] \<or>
       (\<exists>d. trace (getTemplatePath env t w) = [TmpDir, ExecSync (npm_info_command t), AxiosGet u, TarExtract d]))"
  using assms
  by (auto simp: getTemplatePath_def download_extract_def bind_def call_def ret_def trace_def split: prod.splits sum.splits)

lemma begun_stages_append: "begun_stages (a @ b) = begun_stages a @ begun_stages b"
  by (induction a rule: begun_stages.induct) auto

lemma scan_append: "scan p (a @ b) = (case scan p a of None \<Rightarrow> None | Some q \<Rightarrow> scan q b)"
  by (induction a arbitrary: p) (auto split: option.splits)

lemma handlers_begun_append: "handlers_begun s (a @ b) = handlers_begun s a @ handlers_begun s b"
  by (induction s a rule: handlers_begun.induct) auto

lemma waterfall_flow_append:
  "waterfall_flow s v (a @ b) = (case waterfall_flow s v a of None \<Rightarrow> None | Some y \<Rightarrow> waterfall_flow s y b)"
  by (induction s v a rule: waterfall_flow.induct) auto

lemma series_flow_append: "series_flow s v (a @ b) = (series_flow s v a \<and> series_flow s v b)"
  by (induction s v a rule: series_flow.induct) auto

lemma files_flow_append:
  "files_flow cur (a @ b) = (case files_flow cur a of None \<Rightarrow> None | Some y \<Rightarrow> files_flow y b)"
  by (induction cur a rule: files_flow.induct) auto

lemma scan_Ext: "scan (InHandler s n) (map (Ext s n) evs @ tr) = scan (InHandler s n) tr"
  by (induction evs) auto

lemma begun_stages_Ext: "begun_stages (map (Ext s n) evs) = []"
  by (induction evs) auto

lemma handlers_begun_Ext: "handlers_begun s' (map (Ext s n) evs) = []"
  by (induction evs) auto

lemma waterfall_flow_Ext: "waterfall_flow s' v (map (Ext s n) evs) = Some v"
  by (induction evs) auto

lemma series_flow_Ext: "series_flow s' v (map (Ext s n) evs)"
  by (induction evs) auto

lemma files_flow_Ext: "files_flow cur (map (Ext s n) evs) = Some cur"
  by (induction evs) auto

lemma settle_Inr [simp]: "settle first rep = Inr a \<longleftrightarrow> rep = Resolved a"
  by (cases rep) auto

lemma settle_Inl_unresolved: "settle first rep = Inl h \<Longrightarrow> \<not> resolved rep"
  by (cases rep) auto

lemma resolved_map_reply [simp]: "resolved (map_reply f rep) = resolved rep"
  by (cases rep) auto

lemma settle_map_reply: "settle first (map_reply f rep) = map_sum id f (settle first rep)"
  by (cases rep) auto

lemma settle_map_reply_Inl [simp]:
  "settle first (map_reply f rep) = Inl h \<longleftrightarrow> settle first rep = Inl h"
  by (cases rep) auto

lemma series_flow_unresolved [simp]:
  "\<not> resolved rep \<Longrightarrow> series_flow s v (HandlerSettled s' n rep sn # tr) = series_flow s v tr"
  by (cases rep) auto

lemma waterfall_flow_unresolved [simp]:
  "\<not> resolved rep \<Longrightarrow>
   waterfall_flow s v (HandlerSettled s' n rep sn # tr) = waterfall_flow s v tr"
  by (cases rep) auto

lemma run_handler_eq:
  "run_handler s n v out first m w = (r, tr, w') \<longleftrightarrow>
   (\<exists>rep evs. m w = (rep, evs, w') \<and>
      tr = HandlerBegin s n v (snapshot v w) # map (Ext s n) evs @
           [HandlerSettled s n (map_reply out rep) (snapshot v w')] \<and>
      ((\<exists>a. rep = Resolved a \<and> r = Inr a) \<or> (\<not> resolved rep \<and> settle first rep = r)))"
  by (cases "m w"; cases "fst (m w)") (auto simp: run_handler_def)

lemma bind_eq:
  "bind m f w = (r, tr, w') \<longleftrightarrow>
   (\<exists>e. m w = (Inl e, tr, w') \<and> r = Inl e) \<or>
   (\<exists>a t1 w1 t2. m w = (Inr a, t1, w1) \<and> f a w1 = (r, t2, w') \<and> tr = t1 @ t2)"
  by (auto simp: bind_def split: prod.splits sum.splits)

lemma scan_Ext_only: "scan (InHandler s n) (map (Ext s n) evs) = Some (InHandler s n)"
  by (induction evs) auto

lemma series_scan:
  "series_taps first s view ts x w = (r, tr, w') \<Longrightarrow> scan (InStage s) tr = Some (InStage s)"
  by (induction ts arbitrary: first w tr)
     (auto simp: bind_eq run_handler_eq ret_def scan_append scan_Ext scan_Ext_only)

lemma waterfall_scan:
  "waterfall_taps first s view ts x w = (r, tr, w') \<Longrightarrow> scan (InStage s) tr = Some (InStage s)"
  by (induction ts arbitrary: first x w tr)
     (auto simp: bind_eq run_handler_eq ret_def scan_append scan_Ext scan_Ext_only)

lemma series_stage:
  "series_taps first s view ts x w = (r, tr, w') \<Longrightarrow> ev \<in> set tr \<Longrightarrow> stage_of ev = s"
  by (induction ts arbitrary: first w tr)
     (auto simp: bind_eq run_handler_eq ret_def)

lemma waterfall_stage:
  "waterfall_taps first s view ts x w = (r, tr, w') \<Longrightarrow> ev \<in> set tr \<Longrightarrow> stage_of ev = s"
  by (induction ts arbitrary: first x w tr)
     (auto simp: bind_eq run_handler_eq ret_def)

lemma series_begun:
  "series_taps first s view ts x w = (r, tr, w') \<Longrightarrow> begun_stages tr = []"
  by (induction ts arbitrary: first w tr)
     (auto simp: bind_eq run_handler_eq ret_def begun_stages_append begun_stages_Ext)

lemma waterfall_begun:
  "waterfall_taps first s view ts x w = (r, tr, w') \<Longrightarrow> begun_stages tr = []"
  by (induction ts arbitrary: first x w tr)
     (auto simp: bind_eq run_handler_eq ret_def begun_stages_append begun_stages_Ext)

lemma series_names_ok:
  "series_taps first s view ts x w = (Inr u, tr, w') \<Longrightarrow> handlers_begun s tr = map fst ts"
  by (induction ts arbitrary: first w tr)
     (auto simp: bind_eq run_handler_eq ret_def handlers_begun_append handlers_begun_Ext)

lemma series_names_prefix:
  "series_taps first s view ts x w = (r, tr, w') \<Longrightarrow>
   take (length (handlers_begun s tr)) (map fst ts) = handlers_begun s tr"
  by (induction ts arbitrary: first w tr)
     (auto simp: bind_eq run_handler_eq ret_def handlers_begun_append handlers_begun_Ext)

lemma waterfall_names_ok:
  "waterfall_taps first s view ts x w = (Inr u, tr, w') \<Longrightarrow> handlers_begun s tr = map fst ts"
  by (induction ts arbitrary: first x w tr)
     (auto simp: bind_eq run_handler_eq ret_def handlers_begun_append handlers_begun_Ext)

lemma waterfall_names_prefix:
  "waterfall_taps first s view ts x w = (r, tr, w') \<Longrightarrow>
   take (length (handlers_begun s tr)) (map fst ts) = handlers_begun s tr"
  by (induction ts arbitrary: first x w tr)
     (auto simp: bind_eq run_handler_eq ret_def handlers_begun_append handlers_begun_Ext)







lemma waterfall_flow_run:
  "waterfall_taps first s view ts x w = (r, tr, w') \<Longrightarrow>
   \<exists>v. waterfall_flow s (view x) tr = Some v \<and> (\<forall>y. r = Inr y \<longrightarrow> v = view y)"
  by (induction ts arbitrary: first x w tr)
     (auto simp: bind_eq run_handler_eq ret_def waterfall_flow_append waterfall_flow_Ext)

lemma series_flow_run:
  "series_taps first s view ts x w = (r, tr, w') \<Longrightarrow> series_flow s (view x) tr"
  by (induction ts arbitrary: first w tr)
     (auto simp: bind_eq run_handler_eq ret_def series_flow_append series_flow_Ext)

lemma other_stage_flows:
  "\<forall>ev\<in>set tr. stage_of ev = s \<Longrightarrow> s' \<noteq> s \<Longrightarrow>
   series_flow s' v tr \<and> waterfall_flow s' v tr = Some v \<and> handlers_begun s' tr = []"
proof (induction tr)
  case Nil
  then show ?case by simp
next
  case (Cons ev tr)
  then show ?case
  proof (cases ev)
    case (HandlerSettled s0 n r sn)
    with Cons show ?thesis by (cases r) auto
  qed auto
qed

lemma series_files_run:
  "series_taps first s view ts x w = (r, tr, w') \<Longrightarrow> files_addr (view x) = Some a \<Longrightarrow>
   files_flow (objects w a) tr = Some (objects w' a)"
  by (induction ts arbitrary: first w tr)
     (auto simp: bind_eq run_handler_eq ret_def files_flow_append files_flow_Ext snapshot_def)

lemma series_files_none:
  "series_taps first s view ts x w = (r, tr, w') \<Longrightarrow> files_addr (view x) = None \<Longrightarrow>
   files_flow cur tr = Some cur"
  by (induction ts arbitrary: first w tr)
     (auto simp: bind_eq run_handler_eq ret_def files_flow_append files_flow_Ext snapshot_def)

lemma waterfall_files_none:
  "waterfall_taps first s view ts x w = (r, tr, w') \<Longrightarrow> \<forall>y. files_addr (view y) = None \<Longrightarrow>
   files_flow cur tr = Some cur"
  by (induction ts arbitrary: first x w tr)
     (auto simp: bind_eq run_handler_eq ret_def files_flow_append files_flow_Ext snapshot_def)

lemma settled_eq:
  "settled s m w = (r, tr, w') \<longleftrightarrow>
   (\<exists>t. m w = (r, t, w') \<and> tr = StageBegin s # t @ [StageSettled s (fulfilled r)])"
  by (auto simp: settled_def split: prod.splits)

lemma promise_series_eq:
  "promise_series s view ts x w = (r, tr, w') \<longleftrightarrow>
   (\<exists>t. series_taps True s view ts x w = (r, t, w') \<and>
        tr = StageBegin s # t @ [StageSettled s (fulfilled r)])"
  by (simp add: promise_series_def settled_eq)

lemma promise_waterfall_eq:
  "promise_waterfall s view ts x w = (r, tr, w') \<longleftrightarrow>
   (\<exists>t. waterfall_taps True s view ts x w = (r, t, w') \<and>
        tr = StageBegin s # t @ [StageSettled s (fulfilled r)])"
  by (simp add: promise_waterfall_def settled_eq)

lemma promise_series_scan:
  "promise_series s view ts x w = (r, tr, w') \<Longrightarrow> scan Idle tr = Some Idle"
  by (auto simp: promise_series_eq scan_append dest!: series_scan)

lemma promise_waterfall_scan:
  "promise_waterfall s view ts x w = (r, tr, w') \<Longrightarrow> scan Idle tr = Some Idle"
  by (auto simp: promise_waterfall_eq scan_append dest!: waterfall_scan)

lemma promise_series_begun:
  "promise_series s view ts x w = (r, tr, w') \<Longrightarrow> begun_stages tr = [s]"
  by (auto simp: promise_series_eq begun_stages_append dest!: series_begun)

lemma promise_waterfall_begun:
  "promise_waterfall s view ts x w = (r, tr, w') \<Longrightarrow> begun_stages tr = [s]"
  by (auto simp: promise_waterfall_eq begun_stages_append dest!: waterfall_begun)

lemma create_stages_cases [consumes 1, case_names FailPrepare FailResolve FailRender
    FailBeforeEmit FailEmit FailInit Last]:
  assumes "create_stages c w = (r, tr, w')"
  obtains
    e where
      "promise_waterfall Prepare VInfos (prepare (hooks c)) (initial_infos c) w = (Inl e, tr, w')"
      "r = Inl e"
  | i t1 w1 e t2 where
      "promise_waterfall Prepare VInfos (prepare (hooks c)) (initial_infos c) w = (Inr i, t1, w1)"
      "promise_waterfall ResolveTemplate VString (resolveTemplate (hooks c)) (templateName i) w1
         = (Inl e, t2, w')"
      "r = Inl e" "tr = t1 @ t2"
  | i t1 w1 path t2 w2 e t3 where
      "promise_waterfall Prepare VInfos (prepare (hooks c)) (initial_infos c) w = (Inr i, t1, w1)"
      "promise_waterfall ResolveTemplate VString (resolveTemplate (hooks c)) (templateName i) w1
         = (Inr path, t2, w2)"
      "promise_series Render (\<lambda>(ri, a). VRender ri a) (render (hooks c))
         (\<lparr>render_projectName = projectName i, render_appId = appId i, templatePath = path\<rparr>,
          lim w2) (snd (new_object w2)) = (Inl e, t3, w')"
      "r = Inl e" "tr = t1 @ t2 @ t3"
  | i t1 w1 path t2 w2 u3 t3 w3 e t4 where
      "promise_waterfall Prepare VInfos (prepare (hooks c)) (initial_infos c) w = (Inr i, t1, w1)"
      "promise_waterfall ResolveTemplate VString (resolveTemplate (hooks c)) (templateName i) w1
         = (Inr path, t2, w2)"
      "promise_series Render (\<lambda>(ri, a). VRender ri a) (render (hooks c))
         (\<lparr>render_projectName = projectName i, render_appId = appId i, templatePath = path\<rparr>,
          lim w2) (snd (new_object w2)) = (Inr u3, t3, w3)"
      "promise_series BeforeEmit VFiles (beforeEmit (hooks c)) (lim w2) w3 = (Inl e, t4, w')"
      "r = Inl e" "tr = t1 @ t2 @ t3 @ t4"
  | i t1 w1 path t2 w2 u3 t3 w3 u4 t4 w4 e t5 where
      "promise_waterfall Prepare VInfos (prepare (hooks c)) (initial_infos c) w = (Inr i, t1, w1)"
      "promise_waterfall ResolveTemplate VString (resolveTemplate (hooks c)) (templateName i) w1
         = (Inr path, t2, w2)"
      "promise_series Render (\<lambda>(ri, a). VRender ri a) (render (hooks c))
         (\<lparr>render_projectName = projectName i, render_appId = appId i, templatePath = path\<rparr>,
          lim w2) (snd (new_object w2)) = (Inr u3, t3, w3)"
      "promise_series BeforeEmit VFiles (beforeEmit (hooks c)) (lim w2) w3 = (Inr u4, t4, w4)"
      "promise_series Emit (\<lambda>(ctx, a). VEmit ctx a) (emit (hooks c)) (creator_context c, lim w2) w4
         = (Inl e, t5, w')"
      "r = Inl e" "tr = t1 @ t2 @ t3 @ t4 @ t5"
  | i t1 w1 path t2 w2 u3 t3 w3 u4 t4 w4 u5 t5 w5 e t6 where
      "promise_waterfall Prepare VInfos (prepare (hooks c)) (initial_infos c) w = (Inr i, t1, w1)"
      "promise_waterfall ResolveTemplate VString (resolveTemplate (hooks c)) (templateName i) w1
         = (Inr path, t2, w2)"
      "promise_series Render (\<lambda>(ri, a). VRender ri a) (render (hooks c))
         (\<lparr>render_projectName = projectName i, render_appId = appId i, templatePath = path\<rparr>,
          lim w2) (snd (new_object w2)) = (Inr u3, t3, w3)"
      "promise_series BeforeEmit VFiles (beforeEmit (hooks c)) (lim w2) w3 = (Inr u4, t4, w4)"
      "promise_series Emit (\<lambda>(ctx, a). VEmit ctx a) (emit (hooks c)) (creator_context c, lim w2) w4
         = (Inr u5, t5, w5)"
      "promise_series Init VString (init (hooks c)) (creator_context c) w5 = (Inl e, t6, w')"
      "r = Inl e" "tr = t1 @ t2 @ t3 @ t4 @ t5 @ t6"
  | i t1 w1 path t2 w2 u3 t3 w3 u4 t4 w4 u5 t5 w5 u6 t6 w6 t7 where
      "promise_waterfall Prepare VInfos (prepare (hooks c)) (initial_infos c) w = (Inr i, t1, w1)"
      "promise_waterfall ResolveTemplate VString (resolveTemplate (hooks c)) (templateName i) w1
         = (Inr path, t2, w2)"
      "promise_series Render (\<lambda>(ri, a). VRender ri a) (render (hooks c))
         (\<lparr>render_projectName = projectName i, render_appId = appId i, templatePath = path\<rparr>,
          lim w2) (snd (new_object w2)) = (Inr u3, t3, w3)"
      "promise_series BeforeEmit VFiles (beforeEmit (hooks c)) (lim w2) w3 = (Inr u4, t4, w4)"
      "promise_series Emit (\<lambda>(ctx, a). VEmit ctx a) (emit (hooks c)) (creator_context c, lim w2) w4
         = (Inr u5, t5, w5)"
      "promise_series Init VString (init (hooks c)) (creator_context c) w5 = (Inr u6, t6, w6)"
      "promise_series AfterInit VString (afterInit (hooks c)) (creator_context c) w6 = (r, t7, w')"
      "tr = t1 @ t2 @ t3 @ t4 @ t5 @ t6 @ t7"
  using assms
  unfolding create_stages_def bind_eq alloc_files_def new_object_def
  by (elim disjE exE conjE) (auto simp: new_object_def)

lemma promise_series_stage:
  "promise_series s view ts x w = (r, tr, w') \<Longrightarrow> \<forall>ev\<in>set tr. stage_of ev = s"
  by (auto simp: promise_series_eq dest: series_stage)

lemma promise_waterfall_stage:
  "promise_waterfall s view ts x w = (r, tr, w') \<Longrightarrow> \<forall>ev\<in>set tr. stage_of ev = s"
  by (auto simp: promise_waterfall_eq dest: waterfall_stage)

lemma promise_series_other:
  assumes "promise_series s view ts x w = (r, tr, w')" "s' \<noteq> s"
  shows "waterfall_flow s' v tr = Some v" "series_flow s' v tr" "handlers_begun s' tr = []"
  using other_stage_flows[OF promise_series_stage[OF assms(1)] assms(2)] by auto

lemma promise_waterfall_other:
  assumes "promise_waterfall s view ts x w = (r, tr, w')" "s' \<noteq> s"
  shows "waterfall_flow s' v tr = Some v" "series_flow s' v tr" "handlers_begun s' tr = []"
  using other_stage_flows[OF promise_waterfall_stage[OF assms(1)] assms(2)] by auto

lemma promise_waterfall_flow_ok:
  "promise_waterfall s view ts x w = (Inr y, tr, w') \<Longrightarrow>
   waterfall_flow s (view x) tr = Some (view y)"
  by (auto simp: promise_waterfall_eq waterfall_flow_append dest!: waterfall_flow_run)

lemma waterfall_flow_view:
  "waterfall_taps first s view ts x w = (r, tr, w') \<Longrightarrow>
   waterfall_flow s (view x) tr \<in> range (\<lambda>y. Some (view y))"
  by (induction ts arbitrary: first x w tr)
     (auto simp: bind_eq run_handler_eq ret_def waterfall_flow_append waterfall_flow_Ext)

lemma promise_waterfall_flow:
  assumes "promise_waterfall s view ts x w = (r, tr, w')"
  shows "\<exists>y. waterfall_flow s (view x) tr = Some (view y)"
proof -
  from assms obtain t where t: "waterfall_taps True s view ts x w = (r, t, w')"
    and tr: "tr = StageBegin s # t @ [StageSettled s (fulfilled r)]"
    by (auto simp: promise_waterfall_eq)
  from waterfall_flow_view[OF t] obtain y where "waterfall_flow s (view x) t = Some (view y)"
    by auto
  then show ?thesis by (auto simp: tr waterfall_flow_append)
qed

lemma promise_series_flow:
  "promise_series s view ts x w = (r, tr, w') \<Longrightarrow> series_flow s (view x) tr"
  by (auto simp: promise_series_eq series_flow_append dest!: series_flow_run)

lemma promise_series_files:
  "promise_series s view ts x w = (r, tr, w') \<Longrightarrow> files_addr (view x) = Some a \<Longrightarrow>
   files_flow (objects w a) tr = Some (objects w' a)"
  by (auto simp: promise_series_eq files_flow_append dest!: series_files_run)

lemma promise_series_files_none:
  assumes "promise_series s view ts x w = (r, tr, w')" "files_addr (view x) = None"
  shows "files_flow cur tr = Some cur"
proof -
  from assms obtain t where t: "series_taps True s view ts x w = (r, t, w')"
    and tr: "tr = StageBegin s # t @ [StageSettled s (fulfilled r)]"
    by (auto simp: promise_series_eq)
  show ?thesis using series_files_none[OF t assms(2), of cur] by (simp add: tr files_flow_append)
qed

lemma promise_waterfall_files_none:
  assumes "promise_waterfall s view ts x w = (r, tr, w')" "\<forall>y. files_addr (view y) = None"
  shows "files_flow cur tr = Some cur"
proof -
  from assms obtain t where t: "waterfall_taps True s view ts x w = (r, t, w')"
    and tr: "tr = StageBegin s # t @ [StageSettled s (fulfilled r)]"
    by (auto simp: promise_waterfall_eq)
  show ?thesis using waterfall_files_none[OF t assms(2), of cur] by (simp add: tr files_flow_append)
qed

lemma create_stages_scan:
  assumes "create_stages c w = (r, tr, w')"
  shows "scan Idle tr = Some Idle"
  using assms
  by (cases rule: create_stages_cases)
     (auto simp: scan_append dest!: promise_waterfall_scan promise_series_scan)

lemma create_stages_begun:
  assumes "create_stages c w = (r, tr, w')"
  shows "begun_stages tr = take (length (begun_stages tr)) stage_order \<and>
         (fulfilled r \<longrightarrow> begun_stages tr = stage_order)"
  using assms
  by (cases rule: create_stages_cases)
     (auto simp: begun_stages_append stage_order_def fulfilled_def
           dest!: promise_waterfall_begun promise_series_begun)

lemma create_stages_flow:
  assumes "create_stages c w = (r, tr, w')"
  shows "\<exists>i path a.
     waterfall_flow Prepare (VInfos (initial_infos c)) tr = Some (VInfos i) \<and>
     waterfall_flow ResolveTemplate (VString (templateName i)) tr = Some (VString path) \<and>
     series_flow Render (VRender \<lparr>render_projectName = projectName i, render_appId = appId i,
        templatePath = path\<rparr> a) tr \<and>
     series_flow BeforeEmit (VFiles a) tr \<and>
     series_flow Emit (VEmit (creator_context c) a) tr \<and>
     series_flow Init (VString (creator_context c)) tr \<and>
     series_flow AfterInit (VString (creator_context c)) tr"
  using assms
proof (cases rule: create_stages_cases)
  case (FailPrepare e)
  from promise_waterfall_flow[OF FailPrepare(1)] obtain i where
    "waterfall_flow Prepare (VInfos (initial_infos c)) tr = Some (VInfos i)" by auto
  then show ?thesis
    using promise_waterfall_other[OF FailPrepare(1)] by auto
next
  case (FailResolve i t1 w1 e t2)
  from promise_waterfall_flow[OF FailResolve(2)] obtain path where
    "waterfall_flow ResolveTemplate (VString (templateName i)) t2 = Some (VString path)" by auto
  then show ?thesis
    using promise_waterfall_flow_ok[OF FailResolve(1)]
      promise_waterfall_other[OF FailResolve(1)] promise_waterfall_other[OF FailResolve(2)]
    by (auto simp: FailResolve(4) waterfall_flow_append series_flow_append)
next
  case (FailRender i t1 w1 path t2 w2 e t3)
  show ?thesis
    using promise_waterfall_flow_ok[OF FailRender(1)] promise_waterfall_flow_ok[OF FailRender(2)]
      promise_series_flow[OF FailRender(3)]
      promise_waterfall_other[OF FailRender(1)] promise_waterfall_other[OF FailRender(2)]
      promise_series_other[OF FailRender(3)]
    by (auto simp: FailRender(5) waterfall_flow_append series_flow_append)
next
  case (FailBeforeEmit i t1 w1 path t2 w2 u3 t3 w3 e t4)
  show ?thesis
    using promise_waterfall_flow_ok[OF FailBeforeEmit(1)] promise_waterfall_flow_ok[OF FailBeforeEmit(2)]
      promise_series_flow[OF FailBeforeEmit(3)] promise_series_flow[OF FailBeforeEmit(4)]
      promise_waterfall_other[OF FailBeforeEmit(1)] promise_waterfall_other[OF FailBeforeEmit(2)]
      promise_series_other[OF FailBeforeEmit(3)] promise_series_other[OF FailBeforeEmit(4)]
    by (auto simp: FailBeforeEmit(6) waterfall_flow_append series_flow_append)
next
  case (FailEmit i t1 w1 path t2 w2 u3 t3 w3 u4 t4 w4 e t5)
  show ?thesis
    using promise_waterfall_flow_ok[OF FailEmit(1)] promise_waterfall_flow_ok[OF FailEmit(2)]
      promise_series_flow[OF FailEmit(3)] promise_series_flow[OF FailEmit(4)]
      promise_series_flow[OF FailEmit(5)]
      promise_waterfall_other[OF FailEmit(1)] promise_waterfall_other[OF FailEmit(2)]
      promise_series_other[OF FailEmit(3)] promise_series_other[OF FailEmit(4)]
      promise_series_other[OF FailEmit(5)]
    by (auto simp: FailEmit(7) waterfall_flow_append series_flow_append)
next
  case (FailInit i t1 w1 path t2 w2 u3 t3 w3 u4 t4 w4 u5 t5 w5 e t6)
  show ?thesis
    using promise_waterfall_flow_ok[OF FailInit(1)] promise_waterfall_flow_ok[OF FailInit(2)]
      promise_series_flow[OF FailInit(3)] promise_series_flow[OF FailInit(4)]
      promise_series_flow[OF FailInit(5)] promise_series_flow[OF FailInit(6)]
      promise_waterfall_other[OF FailInit(1)] promise_waterfall_other[OF FailInit(2)]
      promise_series_other[OF FailInit(3)] promise_series_other[OF FailInit(4)]
      promise_series_other[OF FailInit(5)] promise_series_other[OF FailInit(6)]
    by (auto simp: FailInit(8) waterfall_flow_append series_flow_append)
next
  case (Last i t1 w1 path t2 w2 u3 t3 w3 u4 t4 w4 u5 t5 w5 u6 t6 w6 t7)
  show ?thesis
    using promise_waterfall_flow_ok[OF Last(1)] promise_waterfall_flow_ok[OF Last(2)]
      promise_series_flow[OF Last(3)] promise_series_flow[OF Last(4)]
      promise_series_flow[OF Last(5)] promise_series_flow[OF Last(6)] promise_series_flow[OF Last(7)]
      promise_waterfall_other[OF Last(1)] promise_waterfall_other[OF Last(2)]
      promise_series_other[OF Last(3)] promise_series_other[OF Last(4)]
      promise_series_other[OF Last(5)] promise_series_other[OF Last(6)]
      promise_series_other[OF Last(7)]
    by (auto simp: Last(8) waterfall_flow_append series_flow_append)
qed









lemma create_stages_files:
  assumes "create_stages c w = (r, tr, w')"
  shows "\<exists>fs. files_flow [] tr = Some fs"
  using assms
proof (cases rule: create_stages_cases)
  case (FailPrepare e)
  then show ?thesis by (simp add: promise_waterfall_files_none)
next
  case (FailResolve i t1 w1 e t2)
  then show ?thesis by (simp add: promise_waterfall_files_none files_flow_append)
next
  case (FailRender i t1 w1 path t2 w2 e t3)
  show ?thesis
    using promise_waterfall_files_none[OF FailRender(1), of "[]"]
      promise_waterfall_files_none[OF FailRender(2), of "[]"]
      promise_series_files[OF FailRender(3), of "lim w2"]
    by (simp add: FailRender(5) files_flow_append new_object_def)
next
  case (FailBeforeEmit i t1 w1 path t2 w2 u3 t3 w3 e t4)
  show ?thesis
    using promise_waterfall_files_none[OF FailBeforeEmit(1), of "[]"]
      promise_waterfall_files_none[OF FailBeforeEmit(2), of "[]"]
      promise_series_files[OF FailBeforeEmit(3), of "lim w2"]
      promise_series_files[OF FailBeforeEmit(4), of "lim w2"]
    by (simp add: FailBeforeEmit(6) files_flow_append new_object_def)
next
  case (FailEmit i t1 w1 path t2 w2 u3 t3 w3 u4 t4 w4 e t5)
  show ?thesis
    using promise_waterfall_files_none[OF FailEmit(1), of "[]"]
      promise_waterfall_files_none[OF FailEmit(2), of "[]"]
      promise_series_files[OF FailEmit(3), of "lim w2"]
      promise_series_files[OF FailEmit(4), of "lim w2"]
      promise_series_files[OF FailEmit(5), of "lim w2"]
    by (simp add: FailEmit(7) files_flow_append new_object_def)
next
  case (FailInit i t1 w1 path t2 w2 u3 t3 w3 u4 t4 w4 u5 t5 w5 e t6)
  show ?thesis
    using promise_waterfall_files_none[OF FailInit(1), of "[]"]
      promise_waterfall_files_none[OF FailInit(2), of "[]"]
      promise_series_files[OF FailInit(3), of "lim w2"]
      promise_series_files[OF FailInit(4), of "lim w2"]
      promise_series_files[OF FailInit(5), of "lim w2"]
      promise_series_files_none[OF FailInit(6), of "objects w5 (lim w2)"]
    by (simp add: FailInit(8) files_flow_append new_object_def)
next
  case (Last i t1 w1 path t2 w2 u3 t3 w3 u4 t4 w4 u5 t5 w5 u6 t6 w6 t7)
  show ?thesis
    using promise_waterfall_files_none[OF Last(1), of "[]"]
      promise_waterfall_files_none[OF Last(2), of "[]"]
      promise_series_files[OF Last(3), of "lim w2"]
      promise_series_files[OF Last(4), of "lim w2"]
      promise_series_files[OF Last(5), of "lim w2"]
      promise_series_files_none[OF Last(6), of "objects w5 (lim w2)"]
      promise_series_files_none[OF Last(7), of "objects w5 (lim w2)"]
    by (simp add: Last(8) files_flow_append new_object_def)
qed

lemma resolvePluginInfos_order:
  "map fst (take 3 (resolvePluginInfos m1 m2 m3 inlinePlugins)) =
     [''@mpflow/cli/lib/creator-plugins/request-app-id'',
      ''@mpflow/cli/lib/creator-plugins/recommended'',
      ''@mpflow/cli/lib/creator-plugins/init-git''] \<and>
   drop 3 (resolvePluginInfos m1 m2 m3 inlinePlugins) = inlinePlugins"
  by (simp add: resolvePluginInfos_def)

lemma extends_refl: "extends c c"
  by (simp add: extends_def)

lemma extends_trans: "extends a b \<Longrightarrow> extends b c \<Longrightarrow> extends a c"
  unfolding extends_def by (elim conjE exE) simp

lemma extends_taps:
  "extends c (tapPrepare pid h1 c)" "extends c (tapResolveTemplate pid h2 c)"
  "extends c (tapRender pid h3 c)" "extends c (tapBeforeEmit pid h4 c)"
  "extends c (tapEmit pid h5 c)" "extends c (tapInit pid h6 c)"
  by (simp_all add: extends_def tapPrepare_def tapResolveTemplate_def tapRender_def
        tapBeforeEmit_def tapEmit_def tapInit_def)

lemma api_calls_extends: "extends c (snd (api_calls pid cs c))"
proof (induction pid cs c rule: api_calls.induct)
  case (1 pid c)
  then show ?case by (simp add: extends_refl)
next
  case (8 pid e cs c)
  then show ?case by (simp add: extends_refl)
qed (auto intro: extends_trans[OF extends_taps(1)] extends_trans[OF extends_taps(2)]
       extends_trans[OF extends_taps(3)] extends_trans[OF extends_taps(4)]
       extends_trans[OF extends_taps(5)] extends_trans[OF extends_taps(6)])

lemma initPlugins_extends: "extends c (snd (initPlugins ps c))"
proof (induction ps arbitrary: c)
  case Nil
  then show ?case by (simp add: extends_refl)
next
  case (Cons p ps)
  show ?case
  proof (cases "plugin_creator p")
    case None
    then show ?thesis using Cons.IH[of c] by simp
  next
    case (Some calls)
    obtain r c1 where ac: "api_calls (plugin_id p) calls c = (r, c1)"
      by (cases "api_calls (plugin_id p) calls c")
    have e1: "extends c c1" using api_calls_extends[of c "plugin_id p" calls] ac by simp
    show ?thesis
    proof (cases r)
      case None
      then show ?thesis using Some ac extends_trans[OF e1 Cons.IH[of c1]] by simp
    next
      case (Some e)
      then show ?thesis using \<open>plugin_creator p = Some calls\<close> ac e1 by simp
    qed
  qed
qed

lemma create_snd: "snd (create plugins c w) = snd (initPlugins plugins c)"
  by (simp add: create_def split: prod.splits option.splits)

lemma create_fst:
  "fst (create plugins c w) =
     (case fst (initPlugins plugins c) of
        Some e \<Rightarrow> (Inl (Rejected e), [], w)
      | None \<Rightarrow> create_stages (snd (initPlugins plugins c)) w)"
  by (simp add: create_def split: prod.splits option.splits)

lemma promise_series_names:
  assumes "promise_series s view ts x w = (r, tr, w')"
  shows "take (length (handlers_begun s tr)) (map fst ts) = handlers_begun s tr"
    and "fulfilled r \<Longrightarrow> handlers_begun s tr = map fst ts"
proof -
  from assms obtain t where t: "series_taps True s view ts x w = (r, t, w')"
    and tr: "tr = StageBegin s # t @ [StageSettled s (fulfilled r)]"
    by (auto simp: promise_series_eq)
  show "take (length (handlers_begun s tr)) (map fst ts) = handlers_begun s tr"
    using series_names_prefix[OF t] by (simp add: tr handlers_begun_append)
  show "fulfilled r \<Longrightarrow> handlers_begun s tr = map fst ts"
    using t series_names_ok[of True s view ts x w _ t w']
    by (cases r) (auto simp: tr handlers_begun_append fulfilled_def)
qed

lemma promise_waterfall_names:
  assumes "promise_waterfall s view ts x w = (r, tr, w')"
  shows "take (length (handlers_begun s tr)) (map fst ts) = handlers_begun s tr"
    and "fulfilled r \<Longrightarrow> handlers_begun s tr = map fst ts"
proof -
  from assms obtain t where t: "waterfall_taps True s view ts x w = (r, t, w')"
    and tr: "tr = StageBegin s # t @ [StageSettled s (fulfilled r)]"
    by (auto simp: promise_waterfall_eq)
  show "take (length (handlers_begun s tr)) (map fst ts) = handlers_begun s tr"
    using waterfall_names_prefix[OF t] by (simp add: tr handlers_begun_append)
  show "fulfilled r \<Longrightarrow> handlers_begun s tr = map fst ts"
    using t waterfall_names_ok[of True s view ts x w _ t w']
    by (cases r) (auto simp: tr handlers_begun_append fulfilled_def)
qed

lemma create_stages_handlers:
  assumes "create_stages c w = (r, tr, w')"
  shows "take (length (handlers_begun s tr)) (tap_names c s) = handlers_begun s tr \<and>
         (fulfilled r \<longrightarrow> handlers_begun s tr = tap_names c s)"
  using assms
proof (cases rule: create_stages_cases)
  case (FailPrepare e)
  show ?thesis
    using promise_waterfall_names[OF FailPrepare(1)] promise_waterfall_other(3)[OF FailPrepare(1)]
    by (cases s) (simp_all add: FailPrepare(2) fulfilled_def)
next
  case (FailResolve i t1 w1 e t2)
  show ?thesis
    using promise_waterfall_names[OF FailResolve(1)] promise_waterfall_other(3)[OF FailResolve(1)]
      promise_waterfall_names[OF FailResolve(2)] promise_waterfall_other(3)[OF FailResolve(2)]
    by (cases s) (simp_all add: FailResolve(3,4) fulfilled_def handlers_begun_append)
next
  case (FailRender i t1 w1 path t2 w2 e t3)
  show ?thesis
    using promise_waterfall_names[OF FailRender(1)] promise_waterfall_other(3)[OF FailRender(1)]
      promise_waterfall_names[OF FailRender(2)] promise_waterfall_other(3)[OF FailRender(2)]
      promise_series_names[OF FailRender(3)] promise_series_other(3)[OF FailRender(3)]
    by (cases s) (simp_all add: FailRender(4,5) fulfilled_def handlers_begun_append)
next
  case (FailBeforeEmit i t1 w1 path t2 w2 u3 t3 w3 e t4)
  show ?thesis
    using promise_waterfall_names[OF FailBeforeEmit(1)] promise_waterfall_other(3)[OF FailBeforeEmit(1)]
      promise_waterfall_names[OF FailBeforeEmit(2)] promise_waterfall_other(3)[OF FailBeforeEmit(2)]
      promise_series_names[OF FailBeforeEmit(3)] promise_series_other(3)[OF FailBeforeEmit(3)]
      promise_series_names[OF FailBeforeEmit(4)] promise_series_other(3)[OF FailBeforeEmit(4)]
    by (cases s) (simp_all add: FailBeforeEmit(5,6) fulfilled_def handlers_begun_append)
next
  case (FailEmit i t1 w1 path t2 w2 u3 t3 w3 u4 t4 w4 e t5)
  show ?thesis
    using promise_waterfall_names[OF FailEmit(1)] promise_waterfall_other(3)[OF FailEmit(1)]
      promise_waterfall_names[OF FailEmit(2)] promise_waterfall_other(3)[OF FailEmit(2)]
      promise_series_names[OF FailEmit(3)] promise_series_other(3)[OF FailEmit(3)]
      promise_series_names[OF FailEmit(4)] promise_series_other(3)[OF FailEmit(4)]
      promise_series_names[OF FailEmit(5)] promise_series_other(3)[OF FailEmit(5)]
    by (cases s) (simp_all add: FailEmit(6,7) fulfilled_def handlers_begun_append)
next
  case (FailInit i t1 w1 path t2 w2 u3 t3 w3 u4 t4 w4 u5 t5 w5 e t6)
  show ?thesis
    using promise_waterfall_names[OF FailInit(1)] promise_waterfall_other(3)[OF FailInit(1)]
      promise_waterfall_names[OF FailInit(2)] promise_waterfall_other(3)[OF FailInit(2)]
      promise_series_names[OF FailInit(3)] promise_series_other(3)[OF FailInit(3)]
      promise_series_names[OF FailInit(4)] promise_series_other(3)[OF FailInit(4)]
      promise_series_names[OF FailInit(5)] promise_series_other(3)[OF FailInit(5)]
      promise_series_names[OF FailInit(6)] promise_series_other(3)[OF FailInit(6)]
    by (cases s) (simp_all add: FailInit(7,8) fulfilled_def handlers_begun_append)
next
  case (Last i t1 w1 path t2 w2 u3 t3 w3 u4 t4 w4 u5 t5 w5 u6 t6 w6 t7)
  show ?thesis
    using promise_waterfall_names[OF Last(1)] promise_waterfall_other(3)[OF Last(1)]
      promise_waterfall_names[OF Last(2)] promise_waterfall_other(3)[OF Last(2)]
      promise_series_names[OF Last(3)] promise_series_other(3)[OF Last(3)]
      promise_series_names[OF Last(4)] promise_series_other(3)[OF Last(4)]
      promise_series_names[OF Last(5)] promise_series_other(3)[OF Last(5)]
      promise_series_names[OF Last(6)] promise_series_other(3)[OF Last(6)]
      promise_series_names[OF Last(7)] promise_series_other(3)[OF Last(7)]
    by (cases s) (simp_all add: Last(8) fulfilled_def handlers_begun_append)
qed

lemmas demo_defs = demo_options_def demo_creator_def demo_plugin_def failing_plugin_def
  throwing_plugin_def
  demo_env_def demo_world_def

lemmas run_defs = create_def create_stages_def new_Creator_def
  promise_waterfall_def promise_series_def settled_def run_handler_def bind_def ret_def call_def
  alloc_files_def new_object_def fulfilled_def snapshot_def initial_infos_def or_empty_def
  creator_resolveTemplate_def creator_render_def creator_emit_def creator_init_def
  assign_files_def object_assign_def new_Generator_def getTemplatePath_def download_extract_def
  npm_info_command_def startsWith_def substr_def is_http_url_def trim_def is_white_space_def
  tapPrepare_def tapResolveTemplate_def tapRender_def tapBeforeEmit_def tapEmit_def tapInit_def
  outcome_def trace_def final_def async_fn_def

lemma create_cases [case_names Thrown Ran]:
  obtains e where "fst (create plugins c w) = (Inl (Rejected e), [], w)"
  | r tr w' where "create_stages (snd (create plugins c w)) w = (r, tr, w')"
      "fst (create plugins c w) = (r, tr, w')"
proof (cases "fst (initPlugins plugins c)")
  case None
  obtain r tr w' where "create_stages (snd (create plugins c w)) w = (r, tr, w')"
    by (cases "create_stages (snd (create plugins c w)) w")
  moreover from this have "fst (create plugins c w) = (r, tr, w')"
    using None by (simp add: create_fst create_snd)
  ultimately show ?thesis using that(2) by blast
next
  case (Some e)
  then have "fst (create plugins c w) = (Inl (Rejected e), [], w)" by (simp add: create_fst)
  then show ?thesis using that(1) by blast
qed

lemma create_extends: "extends c (snd (create plugins c w))"
  by (simp add: create_snd initPlugins_extends)

lemma series_map_result:
  "series_taps first s view (map (\<lambda>(n, h). (n, map_result f h)) ts) x w =
   series_taps first s view ts x w"
proof (induction ts arbitrary: first w)
  case Nil
  show ?case by simp
next
  case (Cons t ts)
  obtain n h where t: "t = (n, h)" by (cases t)
  have rh: "run_handler s n (view x) (\<lambda>_. VUndefined) first (map_result f h x) w' =
        (case run_handler s n (view x) (\<lambda>_. VUndefined) first (h x) w' of
           (r, tr, w'') \<Rightarrow> (map_sum id f r, tr, w''))" for w'
    by (auto simp: run_handler_def map_result_def settle_map_reply reply.map_comp comp_def
          split: prod.splits)
  show ?case
    unfolding t
    by (auto simp: bind_def rh Cons.IH split: prod.splits sum.splits)
qed

lemma defaults_never_remove:
  "never_removes (getTemplatePath env)" "never_removes (creator_resolveTemplate env)"
  "never_removes (creator_render env)" "never_removes (creator_emit env)"
  "never_removes (creator_init env ctx)"
  by (auto simp: never_removes_def getTemplatePath_def download_extract_def
        creator_resolveTemplate_def creator_render_def creator_emit_def creator_init_def
        assign_files_def async_fn_def bind_def call_def ret_def trace_def is_removal_def
        split: prod.splits sum.splits halt.splits if_splits)

lemma never_removesD:
  assumes "never_removes h" "h x w = (r, evs, w')" "e \<in> set evs"
  shows "\<not> is_removal e"
proof -
  have "trace (h x w) = evs" using assms(2) by (simp add: trace_def)
  with assms(1,3) show ?thesis unfolding never_removes_def by blast
qed

lemma series_quiet:
  "series_taps first s view ts x w = (r, tr, w') \<Longrightarrow> \<forall>t\<in>set ts. never_removes (snd t) \<Longrightarrow>
   ev \<in> set tr \<Longrightarrow> quiet ev"
  by (induction ts arbitrary: first w tr)
     (auto simp: bind_eq run_handler_eq ret_def, (meson never_removesD)+)

lemma waterfall_quiet:
  "waterfall_taps first s view ts x w = (r, tr, w') \<Longrightarrow> \<forall>t\<in>set ts. never_removes (snd t) \<Longrightarrow>
   ev \<in> set tr \<Longrightarrow> quiet ev"
  by (induction ts arbitrary: first x w tr)
     (auto simp: bind_eq run_handler_eq ret_def, (meson never_removesD)+)

lemma promise_series_quiet:
  "promise_series s view ts x w = (r, tr, w') \<Longrightarrow> \<forall>t\<in>set ts. never_removes (snd t) \<Longrightarrow>
   \<forall>ev\<in>set tr. quiet ev"
  by (auto simp: promise_series_eq dest: series_quiet)

lemma promise_waterfall_quiet:
  "promise_waterfall s view ts x w = (r, tr, w') \<Longrightarrow> \<forall>t\<in>set ts. never_removes (snd t) \<Longrightarrow>
   \<forall>ev\<in>set tr. quiet ev"
  by (auto simp: promise_waterfall_eq dest: waterfall_quiet)

lemma create_stages_quiet:
  assumes "create_stages c w = (r, tr, w')" "quiet_hooks (hooks c)"
  shows "\<forall>ev\<in>set tr. quiet ev"
  using assms(1)
proof (cases rule: create_stages_cases)
  case (FailPrepare e)
  then show ?thesis
    using assms(2) by (auto simp: quiet_hooks_def dest!: promise_waterfall_quiet)
next
  case (FailResolve i t1 w1 e t2)
  then show ?thesis
    using assms(2) by (auto simp: quiet_hooks_def dest!: promise_waterfall_quiet)
next
  case (FailRender i t1 w1 path t2 w2 e t3)
  then show ?thesis
    using assms(2)
    by (auto simp: quiet_hooks_def dest!: promise_waterfall_quiet promise_series_quiet)
next
  case (FailBeforeEmit i t1 w1 path t2 w2 u3 t3 w3 e t4)
  then show ?thesis
    using assms(2)
    by (auto simp: quiet_hooks_def dest!: promise_waterfall_quiet promise_series_quiet)
next
  case (FailEmit i t1 w1 path t2 w2 u3 t3 w3 u4 t4 w4 e t5)
  then show ?thesis
    using assms(2)
    by (auto simp: quiet_hooks_def dest!: promise_waterfall_quiet promise_series_quiet)
next
  case (FailInit i t1 w1 path t2 w2 u3 t3 w3 u4 t4 w4 u5 t5 w5 e t6)
  then show ?thesis
    using assms(2)
    by (auto simp: quiet_hooks_def dest!: promise_waterfall_quiet promise_series_quiet)
next
  case (Last i t1 w1 path t2 w2 u3 t3 w3 u4 t4 w4 u5 t5 w5 u6 t6 w6 t7)
  then show ?thesis
    using assms(2)
    by (auto simp: quiet_hooks_def dest!: promise_waterfall_quiet promise_series_quiet)
qed

lemma quiet_removed_paths: "\<forall>ev\<in>set tr. quiet ev \<Longrightarrow> removed_paths tr = []"
  by (induction tr rule: removed_paths.induct) (auto simp: is_removal_def)

lemma new_Creator_quiet: "quiet_hooks (hooks (new_Creator env ctx options))"
  by (simp add: quiet_hooks_def new_Creator_def defaults_never_remove)

lemma seven_stages: "set stage_order = UNIV \<and> distinct stage_order \<and> length stage_order = 7"
proof -
  have "s \<in> set stage_order" for s by (cases s) (simp_all add: stage_order_def)
  then show ?thesis by (auto simp: stage_order_def)
qed

lemma create_flow:
  "\<exists>i path a.
     waterfall_flow Prepare (VInfos (initial_infos c)) (trace (fst (create plugins c w))) = Some (VInfos i) \<and>
     waterfall_flow ResolveTemplate (VString (templateName i)) (trace (fst (create plugins c w)))
       = Some (VString path) \<and>
     series_flow Render (VRender \<lparr>render_projectName = projectName i, render_appId = appId i,
        templatePath = path\<rparr> a) (trace (fst (create plugins c w))) \<and>
     series_flow BeforeEmit (VFiles a) (trace (fst (create plugins c w))) \<and>
     series_flow Emit (VEmit (creator_context c) a) (trace (fst (create plugins c w))) \<and>
     series_flow Init (VString (creator_context c)) (trace (fst (create plugins c w))) \<and>
     series_flow AfterInit (VString (creator_context c)) (trace (fst (create plugins c w)))"
proof (cases plugins c w rule: create_cases)
  case (Thrown e)
  then show ?thesis by (simp add: trace_def)
next
  case (Ran r tr w')
  have ext: "extends c (snd (create plugins c w))" by (rule create_extends)
  then have same: "initial_infos (snd (create plugins c w)) = initial_infos c"
    "creator_context (snd (create plugins c w)) = creator_context c"
    by (simp_all add: extends_def initial_infos_def)
  from create_stages_flow[OF Ran(1)] show ?thesis
    by (simp add: Ran(2) trace_def same)
qed

lemma create_stage_order_aux:
  "scan Idle (trace (fst (create plugins c w))) = Some Idle"
proof (cases plugins c w rule: create_cases)
  case (Thrown e)
  then show ?thesis by (simp add: trace_def)
next
  case (Ran r tr w')
  from create_stages_scan[OF Ran(1)] show ?thesis by (simp add: Ran(2) trace_def)
qed

lemma demo_run_outcome: "outcome (fst (create [demo_plugin] demo_creator demo_world)) = Inr ()"
  by (simp add: demo_defs run_defs)


lemma download_extract_no_lookup:
  "download_extract env tmp url w = (r, tr, w') \<Longrightarrow> filter is_lookup tr = []"
  by (auto simp: download_extract_def bind_def call_def ret_def is_lookup_def
        split: prod.splits sum.splits)

lemma demo_registry_ref:
  "\<not> startsWith ''some-package'' ''file://''" "\<not> is_http_url ''some-package''"
  by (simp_all add: startsWith_def is_http_url_def)

lemma demo_registry_trace:
  "trace (getTemplatePath demo_env ''some-package'' demo_world) =
     [TmpDir, ExecSync ''npm info some-package dist.tarball'',
      AxiosGet ''https://registry.example/pkg.tgz'', TarExtract ''/tmp/tmp-1'']"
  by (simp add: demo_defs run_defs)

lemma demo_tmp_dir: "tmp_dir demo_env (ext demo_world) = (Inr ''/tmp/tmp-1'', [''/tmp/tmp-1''])"
  by (simp add: demo_env_def demo_world_def)

lemma demo_url_ref:
  "is_http_url ''https://example.com/template.tgz'' \<and>
   \<not> startsWith ''https://example.com/template.tgz'' ''file://''"
  by (simp add: startsWith_def is_http_url_def)

lemma demo_exec:
  "execSync demo_env (npm_info_command ''some-package'') [''/tmp/tmp-1''] =
     (Inr (''https://registry.example/pkg.tgz'' @ [CHR 0x0A]), [''/tmp/tmp-1''])"
  by (simp add: demo_env_def)

lemma demo_trim:
  "trim (''https://registry.example/pkg.tgz'' @ [CHR 0x0A]) = ''https://registry.example/pkg.tgz''"
  by (simp add: trim_def is_white_space_def)

lemma demo_remote_created:
  "Ext ResolveTemplate ''creator'' TmpDir
     \<in> set (trace (fst (create [] demo_remote_creator demo_world)))"
  by (simp add: demo_remote_creator_def demo_remote_options_def demo_defs run_defs)

lemma create_files: "\<exists>fs. files_flow [] (trace (fst (create plugins c w))) = Some fs"
proof (cases plugins c w rule: create_cases)
  case (Thrown e)
  then show ?thesis by (simp add: trace_def)
next
  case (Ran r tr w')
  from create_stages_files[OF Ran(1)] show ?thesis by (simp add: Ran(2) trace_def)
qed

lemma demo_sync_event:
  "Ext Emit ''creator'' (SyncFiles ''/proj'' [(''app.json'', ''demo''), (''README.md'', ''hello'')])
     \<in> set (trace (fst (create [demo_plugin] demo_creator demo_world)))"
  by (simp add: demo_defs run_defs)

lemma demo_emit_handlers:
  "handlers_begun Emit (trace (fst (create [demo_plugin] demo_creator demo_world))) =
     [''creator'', ''demo-plugin'']"
  by (simp add: demo_defs run_defs)

lemma demo_render_event:
  "HandlerBegin Render ''creator''
     (VRender \<lparr>render_projectName = ''demo'', render_appId = [],
               templatePath = ''/tmp/tmp-1/package/template''\<rparr> 0) (Some [])
     \<in> set (trace (fst (create [demo_plugin] demo_creator demo_world)))"
  by (simp add: demo_defs run_defs)

lemma demo_prepare_outcome:
  "outcome (promise_waterfall Prepare VInfos
      [(''demo-plugin'', async_fn (\<lambda>i. ret (i\<lparr>projectName := ''demo''\<rparr>)))]
      \<lparr>projectName = [], appId = [], templateName = ''some-package''\<rparr> demo_world) =
   Inr \<lparr>projectName = ''demo'', appId = [], templateName = ''some-package''\<rparr>"
  by (simp add: run_defs)

lemma spec_waterfall_ok:
  "h x w = (Resolved y, evs, w1) \<Longrightarrow> spec_waterfall ((n, h) # ts) x w = spec_waterfall ts y w1"
  by simp

lemma spec_waterfall_fail:
  "h x w = (rep, evs, w1) \<Longrightarrow> \<not> resolved rep \<Longrightarrow> spec_waterfall ((n, h) # ts) x w = None"
  by (cases rep) auto

lemma spec_series_ok:
  "h x w = (Resolved y, evs, w1) \<Longrightarrow> spec_series ((n, h) # ts) x w = spec_series ts x w1"
  by simp

lemma spec_series_fail:
  "h x w = (rep, evs, w1) \<Longrightarrow> \<not> resolved rep \<Longrightarrow> spec_series ((n, h) # ts) x w = None"
  by (cases rep) auto

lemma waterfall_spec:
  "waterfall_taps first s view ts x w = (r, tr, w') \<Longrightarrow>
   spec_waterfall ts x w = (case r of Inr y \<Rightarrow> Some (y, w') | Inl h \<Rightarrow> None)"
  by (induction ts arbitrary: first x w tr)
     (auto simp: bind_eq run_handler_eq ret_def spec_waterfall_ok spec_waterfall_fail
           simp del: spec_waterfall.simps(2) dest: settle_Inl_unresolved)

lemma series_spec:
  "series_taps first s view ts x w = (r, tr, w') \<Longrightarrow>
   spec_series ts x w = (case r of Inr u \<Rightarrow> Some (x, w') | Inl h \<Rightarrow> None)"
  by (induction ts arbitrary: first w tr)
     (auto simp: bind_eq run_handler_eq ret_def spec_series_ok spec_series_fail
           simp del: spec_series.simps(2) dest: settle_Inl_unresolved)

lemma promise_waterfall_spec:
  "promise_waterfall s view ts x w = (r, tr, w') \<Longrightarrow>
   spec_waterfall ts x w = (case r of Inr y \<Rightarrow> Some (y, w') | Inl h \<Rightarrow> None)"
  by (auto simp: promise_waterfall_eq dest: waterfall_spec)

lemma promise_series_spec:
  "promise_series s view ts x w = (r, tr, w') \<Longrightarrow>
   spec_series ts x w = (case r of Inr u \<Rightarrow> Some (x, w') | Inl h \<Rightarrow> None)"
  by (auto simp: promise_series_eq dest: series_spec)

lemma waterfall_refines:
  "spec_waterfall ts x w = result_of (promise_waterfall s view ts x w)"
proof -
  obtain r tr w' where p: "promise_waterfall s view ts x w = (r, tr, w')"
    by (cases "promise_waterfall s view ts x w")
  from promise_waterfall_spec[OF p] show ?thesis
    by (simp add: p result_of_def outcome_def final_def split: sum.splits)
qed

lemma series_refines:
  "spec_series ts x w = map_option (\<lambda>(u, w1). (x, w1)) (result_of (promise_series s view ts x w))"
proof -
  obtain r tr w' where p: "promise_series s view ts x w = (r, tr, w')"
    by (cases "promise_series s view ts x w")
  from promise_series_spec[OF p] show ?thesis
    by (simp add: p result_of_def outcome_def final_def split: sum.splits)
qed

lemma create_refines:
  "spec_create c w = map_option snd (result_of (create_stages c w))"
proof -
  obtain r tr w' where run: "create_stages c w = (r, tr, w')"
    by (cases "create_stages c w")
  have a: "fst (new_object v) = lim v" for v :: "'a world"
    by (simp add: new_object_def)
  from run show ?thesis
  proof (cases rule: create_stages_cases)
    case (FailPrepare e)
    from promise_waterfall_spec[OF FailPrepare(1)] show ?thesis
      by (simp add: spec_create_def run result_of_def outcome_def FailPrepare(2))
  next
    case (FailResolve i t1 w1 e t2)
    from promise_waterfall_spec[OF FailResolve(1)] promise_waterfall_spec[OF FailResolve(2)]
    show ?thesis
      by (simp add: spec_create_def run result_of_def outcome_def FailResolve(3))
  next
    case (FailRender i t1 w1 path t2 w2 e t3)
    from promise_waterfall_spec[OF FailRender(1)] promise_waterfall_spec[OF FailRender(2)]
      promise_series_spec[OF FailRender(3)]
    show ?thesis
      by (simp add: spec_create_def run result_of_def outcome_def FailRender(4) a)
  next
    case (FailBeforeEmit i t1 w1 path t2 w2 u3 t3 w3 e t4)
    from promise_waterfall_spec[OF FailBeforeEmit(1)] promise_waterfall_spec[OF FailBeforeEmit(2)]
      promise_series_spec[OF FailBeforeEmit(3)] promise_series_spec[OF FailBeforeEmit(4)]
    show ?thesis
      by (simp add: spec_create_def run result_of_def outcome_def FailBeforeEmit(5) a)
  next
    case (FailEmit i t1 w1 path t2 w2 u3 t3 w3 u4 t4 w4 e t5)
    from promise_waterfall_spec[OF FailEmit(1)] promise_waterfall_spec[OF FailEmit(2)]
      promise_series_spec[OF FailEmit(3)] promise_series_spec[OF FailEmit(4)]
      promise_series_spec[OF FailEmit(5)]
    show ?thesis
      by (simp add: spec_create_def run result_of_def outcome_def FailEmit(6) a)
  next
    case (FailInit i t1 w1 path t2 w2 u3 t3 w3 u4 t4 w4 u5 t5 w5 e t6)
    from promise_waterfall_spec[OF FailInit(1)] promise_waterfall_spec[OF FailInit(2)]
      promise_series_spec[OF FailInit(3)] promise_series_spec[OF FailInit(4)]
      promise_series_spec[OF FailInit(5)] promise_series_spec[OF FailInit(6)]
    show ?thesis
      by (simp add: spec_create_def run result_of_def outcome_def FailInit(7) a)
  next
    case (Last i t1 w1 path t2 w2 u3 t3 w3 u4 t4 w4 u5 t5 w5 u6 t6 w6 t7)
    from promise_waterfall_spec[OF Last(1)] promise_waterfall_spec[OF Last(2)]
      promise_series_spec[OF Last(3)] promise_series_spec[OF Last(4)]
      promise_series_spec[OF Last(5)] promise_series_spec[OF Last(6)]
      promise_series_spec[OF Last(7)]
    show ?thesis
      by (simp add: spec_create_def run result_of_def outcome_def final_def a split: sum.splits)
  qed
qed

lemma create_handlers:
  "take (length (handlers_begun s (trace (fst (create plugins c w)))))
      (tap_names (snd (create plugins c w)) s) = handlers_begun s (trace (fst (create plugins c w))) \<and>
   (fulfilled (outcome (fst (create plugins c w))) \<longrightarrow>
      handlers_begun s (trace (fst (create plugins c w))) = tap_names (snd (create plugins c w)) s)"
proof (cases plugins c w rule: create_cases)
  case (Thrown e)
  then show ?thesis by (simp add: trace_def outcome_def fulfilled_def)
next
  case (Ran r tr w')
  from create_stages_handlers[OF Ran(1), of s] show ?thesis
    by (simp add: Ran(2) trace_def outcome_def)
qed

lemma demo_prepare_spec:
  "result_of (promise_waterfall Prepare VInfos
      [(''demo-plugin'', async_fn (\<lambda>i. ret (i\<lparr>projectName := ''demo''\<rparr>)))]
      \<lparr>projectName = [], appId = [], templateName = ''some-package''\<rparr> demo_world) =
   Some (\<lparr>projectName = ''demo'', appId = [], templateName = ''some-package''\<rparr>, demo_world)"
  by (simp add: run_defs result_of_def)

lemma demo_before_emit_spec:
  "result_of (promise_series BeforeEmit VFiles
      [(''demo-plugin'', async_fn (\<lambda>a w. (Inr (), [],
          w\<lparr>objects := (objects w)(a := set_prop ''README.md'' ''hello'' (objects w a))\<rparr>)))]
      0 demo_world) =
   Some ((), demo_world\<lparr>objects := (objects demo_world)(0 := [(''README.md'', ''hello'')])\<rparr>)"
  by (simp add: run_defs result_of_def demo_world_def)

lemma demo_fulfilled: "fulfilled (outcome (fst (create [demo_plugin] demo_creator demo_world)))"
  by (simp add: demo_run_outcome fulfilled_def)



lemma throwing_second_event:
  "HandlerSettled BeforeEmit ''throwing-plugin'' (Thrown (Error ''boom''))
       (Some [(''app.json'', ''demo''), (''README.md'', ''hello'')])
     \<in> set (trace (fst (create [demo_plugin, throwing_plugin] demo_creator demo_world)))"
  by (simp add: demo_defs run_defs)

lemma throwing_second_handlers:
  "handlers_begun BeforeEmit
     (trace (fst (create [demo_plugin, throwing_plugin] demo_creator demo_world))) =
     [''demo-plugin'', ''throwing-plugin'']"
  by (simp add: demo_defs run_defs)

section \<open>The claims\<close>

text \<open>
  Claim C1. In every run of \<^verbatim>\<open>create()\<close> the stages begin in the order prepare,
  resolveTemplate, render, beforeEmit, emit, init, afterInit, without gap or repetition; a
  stage begins only when no stage is open, that is, after the promise of the stage before it
  has settled, and handler calls lie inside their own stage; a run that is fulfilled has gone
  through all seven stages.
\<close>

theorem create_stage_order:
  "scan Idle (trace (fst (create plugins c w))) = Some Idle \<and>
   begun_stages (trace (fst (create plugins c w))) =
     take (length (begun_stages (trace (fst (create plugins c w))))) stage_order \<and>
   (fulfilled (outcome (fst (create plugins c w))) \<longrightarrow>
      begun_stages (trace (fst (create plugins c w))) = stage_order)"
proof (cases plugins c w rule: create_cases)
  case (Thrown e)
  then show ?thesis by (simp add: trace_def outcome_def fulfilled_def)
next
  case (Ran r tr w')
  from create_stages_scan[OF Ran(1)] create_stages_begun[OF Ran(1)] show ?thesis
    by (simp add: Ran(2) trace_def outcome_def)
qed

theorem create_stage_order_witness:
  "fulfilled (outcome (fst (create [demo_plugin] demo_creator demo_world))) \<and>
   begun_stages (trace (fst (create [demo_plugin] demo_creator demo_world))) =
     [Prepare, ResolveTemplate, Render, BeforeEmit, Emit, Init, AfterInit] \<and>
   scan Idle (trace (fst (create [demo_plugin] demo_creator demo_world))) = Some Idle"
  using create_stage_order[of "[demo_plugin]" demo_creator demo_world] demo_run_outcome
  by (simp add: stage_order_def fulfilled_def)

text \<open>
  Claim C2. There are exactly seven stages. In every run of \<^verbatim>\<open>create()\<close>, prepare and
  resolveTemplate are waterfalls: the first handler receives the argument of the stage, every
  later handler what the handler before it resolved to, and the last output is what the
  later stages use (the template name given to resolveTemplate, the project name, the app id
  and the template path given to render). Render, beforeEmit, emit, init and afterInit are
  series: every handler receives the arguments the stage was called with, and what a handler
  resolves to is dropped, so that replacing the handlers' results by anything else leaves the
  stage unchanged. A waterfall hook that is fulfilled resolves to the output of its last
  handler. The handlers tapped on a stage are called in the order they were tapped: the
  handlers called are always an initial part of those tapped, and all of them when
  \<^verbatim>\<open>create()\<close> is fulfilled. The code agrees with the stages as the specification words them
  (\<open>spec_waterfall\<close>, \<open>spec_series\<close>, \<open>spec_create\<close>): a waterfall hook is fulfilled exactly when
  every handler resolves, with the last handler's output and the world the handlers left; a
  series hook is fulfilled exactly when every handler resolves, with the world the handlers
  left, and, the promise of the hook itself carrying no value, the result of the stage is the
  input \<^verbatim>\<open>create()\<close> called it with; and \<^verbatim>\<open>create()\<close> after \<^verbatim>\<open>initPlugins\<close> is fulfilled exactly
  when the pipeline that feeds each stage from the result of the one before it has a
  result, with the same world.
\<close>

theorem stage_kinds:
  "set stage_order = UNIV \<and> distinct stage_order \<and> length stage_order = 7 \<and>
   (\<exists>i path a.
     waterfall_flow Prepare (VInfos (initial_infos c)) (trace (fst (create plugins c w))) = Some (VInfos i) \<and>
     waterfall_flow ResolveTemplate (VString (templateName i)) (trace (fst (create plugins c w)))
       = Some (VString path) \<and>
     series_flow Render (VRender \<lparr>render_projectName = projectName i, render_appId = appId i,
        templatePath = path\<rparr> a) (trace (fst (create plugins c w))) \<and>
     series_flow BeforeEmit (VFiles a) (trace (fst (create plugins c w))) \<and>
     series_flow Emit (VEmit (creator_context c) a) (trace (fst (create plugins c w))) \<and>
     series_flow Init (VString (creator_context c)) (trace (fst (create plugins c w))) \<and>
     series_flow AfterInit (VString (creator_context c)) (trace (fst (create plugins c w)))) \<and>
   (outcome (promise_waterfall s view ts x w0) = Inr y \<longrightarrow>
      waterfall_flow s (view x) (trace (promise_waterfall s view ts x w0)) = Some (view y)) \<and>
   promise_series s view' (map (\<lambda>(n, h). (n, map_result f h)) ts') x' w0 =
     promise_series s view' ts' x' w0 \<and>
   take (length (handlers_begun st (trace (fst (create plugins c w)))))
     (tap_names (snd (create plugins c w)) st) = handlers_begun st (trace (fst (create plugins c w))) \<and>
   (fulfilled (outcome (fst (create plugins c w))) \<longrightarrow>
      handlers_begun st (trace (fst (create plugins c w))) = tap_names (snd (create plugins c w)) st) \<and>
   spec_waterfall ts x w0 = result_of (promise_waterfall s view ts x w0) \<and>
   spec_series ts' x' w0 =
     map_option (\<lambda>(u, w1). (x', w1)) (result_of (promise_series s view' ts' x' w0)) \<and>
   spec_create c w = map_option snd (result_of (create_stages c w))"
proof -
  have wf: "outcome (promise_waterfall s view ts x w0) = Inr y \<longrightarrow>
      waterfall_flow s (view x) (trace (promise_waterfall s view ts x w0)) = Some (view y)"
  proof
    assume o: "outcome (promise_waterfall s view ts x w0) = Inr y"
    obtain r tr w1 where p: "promise_waterfall s view ts x w0 = (r, tr, w1)"
      by (cases "promise_waterfall s view ts x w0")
    with o have "promise_waterfall s view ts x w0 = (Inr y, tr, w1)" by (simp add: outcome_def)
    from promise_waterfall_flow_ok[OF this] p
    show "waterfall_flow s (view x) (trace (promise_waterfall s view ts x w0)) = Some (view y)"
      by (simp add: trace_def)
  qed
  have sr: "promise_series s view' (map (\<lambda>(n, h). (n, map_result f h)) ts') x' w0 =
     promise_series s view' ts' x' w0"
    using series_map_result[of True s view' f ts' x'] by (simp add: promise_series_def settled_def)
  show ?thesis
    using seven_stages create_flow[of c plugins w] wf sr create_handlers[of st plugins c w]
      waterfall_refines[of ts x w0 s view] series_refines[of ts' x' w0 s view']
      create_refines[of c w]
    by (intro conjI) simp_all
qed

theorem stage_kinds_witness:
  "length stage_order = 7 \<and>
   (\<exists>i path a.
     waterfall_flow Prepare (VInfos (initial_infos demo_creator))
       (trace (fst (create [demo_plugin] demo_creator demo_world))) = Some (VInfos i) \<and>
     waterfall_flow ResolveTemplate (VString (templateName i))
       (trace (fst (create [demo_plugin] demo_creator demo_world))) = Some (VString path) \<and>
     series_flow Render (VRender \<lparr>render_projectName = projectName i, render_appId = appId i,
        templatePath = path\<rparr> a) (trace (fst (create [demo_plugin] demo_creator demo_world))) \<and>
     series_flow BeforeEmit (VFiles a) (trace (fst (create [demo_plugin] demo_creator demo_world))) \<and>
     series_flow Emit (VEmit (creator_context demo_creator) a)
       (trace (fst (create [demo_plugin] demo_creator demo_world))) \<and>
     series_flow Init (VString (creator_context demo_creator))
       (trace (fst (create [demo_plugin] demo_creator demo_world))) \<and>
     series_flow AfterInit (VString (creator_context demo_creator))
       (trace (fst (create [demo_plugin] demo_creator demo_world)))) \<and>
   waterfall_flow Prepare
     (VInfos \<lparr>projectName = [], appId = [], templateName = ''some-package''\<rparr>)
     (trace (promise_waterfall Prepare VInfos
        [(''demo-plugin'', async_fn (\<lambda>i. ret (i\<lparr>projectName := ''demo''\<rparr>)))]
        \<lparr>projectName = [], appId = [], templateName = ''some-package''\<rparr> demo_world)) =
     Some (VInfos \<lparr>projectName = ''demo'', appId = [], templateName = ''some-package''\<rparr>) \<and>
   fulfilled (outcome (fst (create [demo_plugin] demo_creator demo_world))) \<and>
   tap_names (snd (create [demo_plugin] demo_creator demo_world)) Emit =
     [''creator'', ''demo-plugin''] \<and>
   spec_waterfall
     [(''demo-plugin'', async_fn (\<lambda>i. ret (i\<lparr>projectName := ''demo''\<rparr>)))]
     \<lparr>projectName = [], appId = [], templateName = ''some-package''\<rparr> demo_world =
     Some (\<lparr>projectName = ''demo'', appId = [], templateName = ''some-package''\<rparr>, demo_world) \<and>
   spec_series
     [(''demo-plugin'', async_fn (\<lambda>a w. (Inr (), [],
         w\<lparr>objects := (objects w)(a := set_prop ''README.md'' ''hello'' (objects w a))\<rparr>)))]
     0 demo_world =
     Some (0, demo_world\<lparr>objects := (objects demo_world)(0 := [(''README.md'', ''hello'')])\<rparr>)"
proof -
  note k = stage_kinds[where c = demo_creator and plugins = "[demo_plugin]" and w = demo_world
      and s = Prepare and view = VInfos
      and ts = "[(''demo-plugin'', async_fn (\<lambda>i. ret (i\<lparr>projectName := ''demo''\<rparr>)))]"
      and x = "\<lparr>projectName = [], appId = [], templateName = ''some-package''\<rparr>"
      and y = "\<lparr>projectName = ''demo'', appId = [], templateName = ''some-package''\<rparr>"
      and ?w0.0 = demo_world and st = Emit and f = "\<lambda>u. u"
      and view' = VInfos and ts' = "[]" and x' = "\<lparr>projectName = [], appId = [], templateName = []\<rparr>"]
  note j = stage_kinds[where s = BeforeEmit and view' = VFiles
      and ts' = "[(''demo-plugin'', async_fn (\<lambda>a w. (Inr (), [],
         w\<lparr>objects := (objects w)(a := set_prop ''README.md'' ''hello'' (objects w a))\<rparr>)))]"
      and x' = 0 and ?w0.0 = demo_world and f = "\<lambda>u. u"
      and c = demo_creator and plugins = "[]" and w = demo_world and st = Emit
      and view = VFiles and ts = "[]" and x = 0 and y = 0]
  from k have a: "length stage_order = 7" by blast
  from k have b: "\<exists>i path a.
     waterfall_flow Prepare (VInfos (initial_infos demo_creator))
       (trace (fst (create [demo_plugin] demo_creator demo_world))) = Some (VInfos i) \<and>
     waterfall_flow ResolveTemplate (VString (templateName i))
       (trace (fst (create [demo_plugin] demo_creator demo_world))) = Some (VString path) \<and>
     series_flow Render (VRender \<lparr>render_projectName = projectName i, render_appId = appId i,
        templatePath = path\<rparr> a) (trace (fst (create [demo_plugin] demo_creator demo_world))) \<and>
     series_flow BeforeEmit (VFiles a) (trace (fst (create [demo_plugin] demo_creator demo_world))) \<and>
     series_flow Emit (VEmit (creator_context demo_creator) a)
       (trace (fst (create [demo_plugin] demo_creator demo_world))) \<and>
     series_flow Init (VString (creator_context demo_creator))
       (trace (fst (create [demo_plugin] demo_creator demo_world))) \<and>
     series_flow AfterInit (VString (creator_context demo_creator))
       (trace (fst (create [demo_plugin] demo_creator demo_world)))" by blast
  from k demo_prepare_outcome have c: "waterfall_flow Prepare
     (VInfos \<lparr>projectName = [], appId = [], templateName = ''some-package''\<rparr>)
     (trace (promise_waterfall Prepare VInfos
        [(''demo-plugin'', async_fn (\<lambda>i. ret (i\<lparr>projectName := ''demo''\<rparr>)))]
        \<lparr>projectName = [], appId = [], templateName = ''some-package''\<rparr> demo_world)) =
     Some (VInfos \<lparr>projectName = ''demo'', appId = [], templateName = ''some-package''\<rparr>)"
    by blast
  from k demo_fulfilled have
    "handlers_begun Emit (trace (fst (create [demo_plugin] demo_creator demo_world))) =
       tap_names (snd (create [demo_plugin] demo_creator demo_world)) Emit" by blast
  with demo_emit_handlers have d:
    "tap_names (snd (create [demo_plugin] demo_creator demo_world)) Emit =
       [''creator'', ''demo-plugin'']" by simp
  from k have "spec_waterfall
     [(''demo-plugin'', async_fn (\<lambda>i. ret (i\<lparr>projectName := ''demo''\<rparr>)))]
     \<lparr>projectName = [], appId = [], templateName = ''some-package''\<rparr> demo_world =
     result_of (promise_waterfall Prepare VInfos
      [(''demo-plugin'', async_fn (\<lambda>i. ret (i\<lparr>projectName := ''demo''\<rparr>)))]
      \<lparr>projectName = [], appId = [], templateName = ''some-package''\<rparr> demo_world)" by blast
  then have e: "spec_waterfall
     [(''demo-plugin'', async_fn (\<lambda>i. ret (i\<lparr>projectName := ''demo''\<rparr>)))]
     \<lparr>projectName = [], appId = [], templateName = ''some-package''\<rparr> demo_world =
     Some (\<lparr>projectName = ''demo'', appId = [], templateName = ''some-package''\<rparr>, demo_world)"
    by (simp only: demo_prepare_spec)
  from j have "spec_series
     [(''demo-plugin'', async_fn (\<lambda>a w. (Inr (), [],
         w\<lparr>objects := (objects w)(a := set_prop ''README.md'' ''hello'' (objects w a))\<rparr>)))]
     0 demo_world =
     map_option (\<lambda>(u, w1). (0, w1)) (result_of (promise_series BeforeEmit VFiles
      [(''demo-plugin'', async_fn (\<lambda>a w. (Inr (), [],
          w\<lparr>objects := (objects w)(a := set_prop ''README.md'' ''hello'' (objects w a))\<rparr>)))]
      0 demo_world))" by blast
  then have g: "spec_series
     [(''demo-plugin'', async_fn (\<lambda>a w. (Inr (), [],
         w\<lparr>objects := (objects w)(a := set_prop ''README.md'' ''hello'' (objects w a))\<rparr>)))]
     0 demo_world =
     Some (0, demo_world\<lparr>objects := (objects demo_world)(0 := [(''README.md'', ''hello'')])\<rparr>)"
    by (simp only: demo_before_emit_spec option.map prod.case)
  from a b c demo_fulfilled d e g show ?thesis by (intro conjI)
qed




text \<open>
  Claim C4, as amended. For a template reference that begins with \<^verbatim>\<open>file://\<close>,
  \<^verbatim>\<open>getTemplatePath\<close> drops the seven characters of the marker, resolves the rest to an
  absolute path and appends \<^verbatim>\<open>template\<close>; it makes no outside call at all (no temporary
  directory, no registry query, no download), leaves the world as it is, and always succeeds:
  it does not look whether the directory exists.
\<close>

theorem local_template_never_fails:
  "startsWith t ''file://'' \<Longrightarrow>
   getTemplatePath env t w =
     (Inr (path_join env [path_resolve env (substr t 7), ''template'']), [], w)"
  by (simp add: getTemplatePath_def ret_def)

theorem local_template_never_fails_witness:
  "startsWith ''file://./mytemplate'' ''file://'' \<and>
   getTemplatePath demo_env ''file://./mytemplate'' demo_world =
     (Inr ''/work/mytemplate/template'', [], demo_world)"
proof -
  have h: "startsWith ''file://./mytemplate'' ''file://''" by (simp add: startsWith_def)
  show ?thesis
    using h local_template_never_fails[OF h, of demo_env demo_world]
    by (simp add: demo_env_def substr_def startsWith_def)
qed

text \<open>
  Claim C4 as first stated also asks for a failure when the directory is absent. In the
  example world nothing exists on disk, and the lookup of \<^verbatim>\<open>file://./mytemplate\<close> succeeds.
\<close>

theorem local_template_absent_counterexample:
  "''/work/mytemplate/template'' \<notin> set (ext demo_world) \<and>
   outcome (getTemplatePath demo_env ''file://./mytemplate'' demo_world) =
     Inr ''/work/mytemplate/template''"
  by (simp add: getTemplatePath_def ret_def startsWith_def substr_def outcome_def demo_world_def
        demo_env_def)

text \<open>
  Claim C5. For a template reference that neither begins with \<^verbatim>\<open>file://\<close> nor is an
  http(s) URL, \<^verbatim>\<open>getTemplatePath\<close> queries the registry at most once, and every download it
  attempts comes after exactly one query, the \<^verbatim>\<open>npm info\<close> query for that reference. Once the
  temporary directory has been created the query is made, exactly once; and when the query
  answers, what follows is the download and extraction of the trimmed answer into the
  temporary directory, the very computation that a URL reference runs on its URL.
\<close>

theorem registry_lookup_before_download:
  assumes "\<not> startsWith t ''file://''" "\<not> is_http_url t"
  shows "length (filter is_lookup (trace (getTemplatePath env t w))) \<le> 1 \<and>
    (\<forall>k < length (trace (getTemplatePath env t w)).
        is_download (trace (getTemplatePath env t w) ! k) \<longrightarrow>
        filter is_lookup (take k (trace (getTemplatePath env t w))) = [ExecSync (npm_info_command t)]) \<and>
    (\<forall>tmp x1. tmp_dir env (ext w) = (Inr tmp, x1) \<longrightarrow>
        filter is_lookup (trace (getTemplatePath env t w)) = [ExecSync (npm_info_command t)] \<and>
        (\<forall>out x2. execSync env (npm_info_command t) x1 = (Inr out, x2) \<longrightarrow>
           getTemplatePath env t w =
             (outcome (download_extract env tmp (trim out) (w\<lparr>ext := x2\<rparr>)),
              [TmpDir, ExecSync (npm_info_command t)] @
                trace (download_extract env tmp (trim out) (w\<lparr>ext := x2\<rparr>)),
              final (download_extract env tmp (trim out) (w\<lparr>ext := x2\<rparr>)))) \<and>
        (\<forall>url. is_http_url url \<and> \<not> startsWith url ''file://'' \<longrightarrow>
           getTemplatePath env url w =
             (outcome (download_extract env tmp url (w\<lparr>ext := x1\<rparr>)),
              TmpDir # trace (download_extract env tmp url (w\<lparr>ext := x1\<rparr>)),
              final (download_extract env tmp url (w\<lparr>ext := x1\<rparr>)))))"
proof (intro conjI allI impI)
  show "length (filter is_lookup (trace (getTemplatePath env t w))) \<le> 1"
    using registry_trace_cases[OF assms, of env w] by (auto simp: is_lookup_def)
next
  fix k assume "k < length (trace (getTemplatePath env t w))"
    "is_download (trace (getTemplatePath env t w) ! k)"
  then show "filter is_lookup (take k (trace (getTemplatePath env t w))) = [ExecSync (npm_info_command t)]"
    using registry_trace_cases[OF assms, of env w]
    by (auto simp: is_lookup_def is_download_def less_Suc_eq nth_Cons')
next
  fix tmp x1 assume "tmp_dir env (ext w) = (Inr tmp, x1)"
  then show "filter is_lookup (trace (getTemplatePath env t w)) = [ExecSync (npm_info_command t)]"
    using assms
    by (auto simp: getTemplatePath_def bind_def call_def ret_def trace_def is_lookup_def
          split: prod.splits sum.splits dest: download_extract_no_lookup)
next
  fix tmp x1 out x2
  assume "tmp_dir env (ext w) = (Inr tmp, x1)" "execSync env (npm_info_command t) x1 = (Inr out, x2)"
  then show "getTemplatePath env t w =
             (outcome (download_extract env tmp (trim out) (w\<lparr>ext := x2\<rparr>)),
              [TmpDir, ExecSync (npm_info_command t)] @
                trace (download_extract env tmp (trim out) (w\<lparr>ext := x2\<rparr>)),
              final (download_extract env tmp (trim out) (w\<lparr>ext := x2\<rparr>)))"
    using assms
    by (simp add: getTemplatePath_def bind_def call_def ret_def trace_def outcome_def final_def
          split: prod.splits sum.splits)
next
  fix tmp x1 url
  assume "tmp_dir env (ext w) = (Inr tmp, x1)" "is_http_url url \<and> \<not> startsWith url ''file://''"
  then show "getTemplatePath env url w =
             (outcome (download_extract env tmp url (w\<lparr>ext := x1\<rparr>)),
              TmpDir # trace (download_extract env tmp url (w\<lparr>ext := x1\<rparr>)),
              final (download_extract env tmp url (w\<lparr>ext := x1\<rparr>)))"
    by (simp add: getTemplatePath_def bind_def call_def ret_def trace_def outcome_def final_def
          split: prod.splits sum.splits)
qed

theorem registry_lookup_before_download_witness:
  "\<not> startsWith ''some-package'' ''file://'' \<and> \<not> is_http_url ''some-package'' \<and>
   is_download (trace (getTemplatePath demo_env ''some-package'' demo_world) ! 2) \<and>
   filter is_lookup (take 2 (trace (getTemplatePath demo_env ''some-package'' demo_world))) =
     [ExecSync ''npm info some-package dist.tarball''] \<and>
   filter is_lookup (trace (getTemplatePath demo_env ''some-package'' demo_world)) =
     [ExecSync ''npm info some-package dist.tarball''] \<and>
   trace (getTemplatePath demo_env ''some-package'' demo_world) =
     [TmpDir, ExecSync ''npm info some-package dist.tarball''] @
     trace (download_extract demo_env ''/tmp/tmp-1'' ''https://registry.example/pkg.tgz''
              (demo_world\<lparr>ext := [''/tmp/tmp-1'']\<rparr>)) \<and>
   trace (getTemplatePath demo_env ''https://example.com/template.tgz'' demo_world) =
     TmpDir # trace (download_extract demo_env ''/tmp/tmp-1'' ''https://example.com/template.tgz''
                       (demo_world\<lparr>ext := [''/tmp/tmp-1'']\<rparr>))"
proof -
  note main = registry_lookup_before_download[OF demo_registry_ref, of demo_env demo_world]
  have d: "is_download (trace (getTemplatePath demo_env ''some-package'' demo_world) ! 2)"
    and l: "2 < length (trace (getTemplatePath demo_env ''some-package'' demo_world))"
    by (simp_all add: demo_registry_trace is_download_def)
  from main l d
  have a: "filter is_lookup (take 2 (trace (getTemplatePath demo_env ''some-package'' demo_world))) =
     [ExecSync (npm_info_command ''some-package'')]" by blast
  from main demo_tmp_dir
  have b: "filter is_lookup (trace (getTemplatePath demo_env ''some-package'' demo_world)) =
     [ExecSync (npm_info_command ''some-package'')]" by blast
  from main demo_tmp_dir demo_exec
  have "getTemplatePath demo_env ''some-package'' demo_world =
     (outcome (download_extract demo_env ''/tmp/tmp-1''
                 (trim (''https://registry.example/pkg.tgz'' @ [CHR 0x0A]))
                 (demo_world\<lparr>ext := [''/tmp/tmp-1'']\<rparr>)),
      [TmpDir, ExecSync (npm_info_command ''some-package'')] @
        trace (download_extract demo_env ''/tmp/tmp-1''
                 (trim (''https://registry.example/pkg.tgz'' @ [CHR 0x0A]))
                 (demo_world\<lparr>ext := [''/tmp/tmp-1'']\<rparr>)),
      final (download_extract demo_env ''/tmp/tmp-1''
                 (trim (''https://registry.example/pkg.tgz'' @ [CHR 0x0A]))
                 (demo_world\<lparr>ext := [''/tmp/tmp-1'']\<rparr>)))" by blast
  then have r: "trace (getTemplatePath demo_env ''some-package'' demo_world) =
     [TmpDir, ExecSync (npm_info_command ''some-package'')] @
     trace (download_extract demo_env ''/tmp/tmp-1'' ''https://registry.example/pkg.tgz''
              (demo_world\<lparr>ext := [''/tmp/tmp-1'']\<rparr>))"
    by (simp only: demo_trim trace_def fst_conv snd_conv)
  from main demo_tmp_dir demo_url_ref
  have "getTemplatePath demo_env ''https://example.com/template.tgz'' demo_world =
     (outcome (download_extract demo_env ''/tmp/tmp-1'' ''https://example.com/template.tgz''
                 (demo_world\<lparr>ext := [''/tmp/tmp-1'']\<rparr>)),
      TmpDir # trace (download_extract demo_env ''/tmp/tmp-1'' ''https://example.com/template.tgz''
                 (demo_world\<lparr>ext := [''/tmp/tmp-1'']\<rparr>)),
      final (download_extract demo_env ''/tmp/tmp-1'' ''https://example.com/template.tgz''
                 (demo_world\<lparr>ext := [''/tmp/tmp-1'']\<rparr>)))" by blast
  then have c: "trace (getTemplatePath demo_env ''https://example.com/template.tgz'' demo_world) =
     TmpDir # trace (download_extract demo_env ''/tmp/tmp-1'' ''https://example.com/template.tgz''
                       (demo_world\<lparr>ext := [''/tmp/tmp-1'']\<rparr>))"
    by (simp add: trace_def)
  show ?thesis using demo_registry_ref d a b c r by (simp add: npm_info_command_def)
qed

text \<open>
  Claim C6, as amended. The creator never removes the temporary directory of a downloaded
  template: \<^verbatim>\<open>getTemplatePath\<close> creates it and issues no removal, on success or on failure,
  and no handler that the constructor taps issues one. In a run of \<^verbatim>\<open>create()\<close> in which no
  tapped handler removes it (as when no plugin taps anything), the list of removed paths is
  empty, whether or not render succeeds.
\<close>

theorem temp_directory_never_removed:
  "never_removes (getTemplatePath env) \<and>
   quiet_hooks (hooks (new_Creator env ctx options)) \<and>
   snd (create [] c w) = c \<and>
   (quiet_hooks (hooks (snd (create plugins c w))) \<longrightarrow>
      removed_paths (trace (fst (create plugins c w))) = [])"
proof (intro conjI impI)
  show "never_removes (getTemplatePath env)" by (rule defaults_never_remove)
  show "quiet_hooks (hooks (new_Creator env ctx options))" by (rule new_Creator_quiet)
  show "snd (create [] c w) = c" by (simp add: create_snd)
next
  assume q: "quiet_hooks (hooks (snd (create plugins c w)))"
  show "removed_paths (trace (fst (create plugins c w))) = []"
  proof (cases plugins c w rule: create_cases)
    case (Thrown e)
    then show ?thesis by (simp add: trace_def)
  next
    case (Ran r tr w')
    from quiet_removed_paths[OF create_stages_quiet[OF Ran(1) q]] show ?thesis
      by (simp add: Ran(2) trace_def)
  qed
qed

theorem temp_directory_never_removed_witness:
  "quiet_hooks (hooks (snd (create [] demo_remote_creator demo_world))) \<and>
   Ext ResolveTemplate ''creator'' TmpDir
     \<in> set (trace (fst (create [] demo_remote_creator demo_world))) \<and>
   removed_paths (trace (fst (create [] demo_remote_creator demo_world))) = []"
proof -
  note main = temp_directory_never_removed[of demo_env "''/proj''" demo_remote_options
      demo_remote_creator demo_world "[]"]
  have q: "quiet_hooks (hooks (snd (create [] demo_remote_creator demo_world)))"
    using main by (simp add: demo_remote_creator_def)
  with main have "removed_paths (trace (fst (create [] demo_remote_creator demo_world))) = []"
    by blast
  with q demo_remote_created show ?thesis by simp
qed

text \<open>
  Claim C6 as first stated says that the directory is deleted after use. In the example
  world, \<^verbatim>\<open>create()\<close> on a URL template with no plugins is fulfilled, has created the temporary
  directory, has issued no removal, and the directory still exists when it returns.
\<close>

theorem temp_directory_kept_counterexample:
  "outcome (fst (create [] demo_remote_creator demo_world)) = Inr () \<and>
   Ext ResolveTemplate ''creator'' TmpDir
     \<in> set (trace (fst (create [] demo_remote_creator demo_world))) \<and>
   removed_paths (trace (fst (create [] demo_remote_creator demo_world))) = [] \<and>
   ''/tmp/tmp-1'' \<in> set (ext (final (fst (create [] demo_remote_creator demo_world))))"
  by (simp add: demo_remote_creator_def demo_remote_options_def demo_defs run_defs)

text \<open>
  Claim C7. In every run of \<^verbatim>\<open>create()\<close> all handlers of render, beforeEmit and emit receive
  the address of one and the same \<^verbatim>\<open>files\<close> object. The object is empty when the first of
  them is called, and each handler finds in it exactly what the handler before it left there,
  also across the stage boundaries: what render and beforeEmit add, remove or rewrite is what
  emit sees. The constructor's render handler changes the object in place with
  \<^verbatim>\<open>Object.assign\<close>, and its emit handler hands \<^verbatim>\<open>syncFiles\<close> the contents the object has at
  that moment.
\<close>

theorem files_object_shared:
  "(\<exists>a ri fs.
      series_flow Render (VRender ri a) (trace (fst (create plugins c w))) \<and>
      series_flow BeforeEmit (VFiles a) (trace (fst (create plugins c w))) \<and>
      series_flow Emit (VEmit (creator_context c) a) (trace (fst (create plugins c w))) \<and>
      files_flow [] (trace (fst (create plugins c w))) = Some fs) \<and>
   objects (final (creator_render env (ri0, a0) w0)) =
     (case fst (renderFiles env (templatePath ri0) ''**/*''
                  (render_projectName ri0, render_appId ri0) (ext w0)) of
        Inl e \<Rightarrow> objects w0
      | Inr rendered \<Rightarrow> (objects w0)(a0 := object_assign (objects w0 a0) rendered)) \<and>
   trace (creator_emit env (ctx0, a0) w0) = [SyncFiles ctx0 (objects w0 a0)]"
proof (intro conjI)
  from create_flow[of c plugins w] create_files[of plugins c w]
  show "\<exists>a ri fs.
      series_flow Render (VRender ri a) (trace (fst (create plugins c w))) \<and>
      series_flow BeforeEmit (VFiles a) (trace (fst (create plugins c w))) \<and>
      series_flow Emit (VEmit (creator_context c) a) (trace (fst (create plugins c w))) \<and>
      files_flow [] (trace (fst (create plugins c w))) = Some fs"
    by blast
  show "objects (final (creator_render env (ri0, a0) w0)) =
     (case fst (renderFiles env (templatePath ri0) ''**/*''
                  (render_projectName ri0, render_appId ri0) (ext w0)) of
        Inl e \<Rightarrow> objects w0
      | Inr rendered \<Rightarrow> (objects w0)(a0 := object_assign (objects w0 a0) rendered))"
    by (simp add: creator_render_def async_fn_def bind_def call_def ret_def assign_files_def
          final_def split: prod.splits sum.splits halt.splits)
  show "trace (creator_emit env (ctx0, a0) w0) = [SyncFiles ctx0 (objects w0 a0)]"
    by (simp add: creator_emit_def async_fn_def call_def trace_def
          split: prod.splits sum.splits halt.splits)
qed

theorem files_object_shared_witness:
  "(\<exists>a ri fs.
      series_flow Render (VRender ri a) (trace (fst (create [demo_plugin] demo_creator demo_world))) \<and>
      series_flow BeforeEmit (VFiles a) (trace (fst (create [demo_plugin] demo_creator demo_world))) \<and>
      series_flow Emit (VEmit ''/proj'' a) (trace (fst (create [demo_plugin] demo_creator demo_world))) \<and>
      files_flow [] (trace (fst (create [demo_plugin] demo_creator demo_world))) = Some fs) \<and>
   Ext Emit ''creator'' (SyncFiles ''/proj'' [(''app.json'', ''demo''), (''README.md'', ''hello'')])
     \<in> set (trace (fst (create [demo_plugin] demo_creator demo_world)))"
proof -
  have ctx: "creator_context demo_creator = ''/proj''"
    by (simp add: demo_creator_def new_Creator_def)
  note shared = files_object_shared[THEN conjunct1, of "[demo_plugin]" demo_creator demo_world]
  show ?thesis using shared[unfolded ctx] demo_sync_event by (rule conjI)
qed

text \<open>
  Claim C8. Let the creator be as its constructor built it, possibly with handlers added
  since through \<^verbatim>\<open>CreatorAPI\<close> (by earlier calls of \<^verbatim>\<open>create()\<close>, say). For resolveTemplate,
  render, emit and init: after \<^verbatim>\<open>initPlugins\<close>, whatever the plugins tapped, the handler that
  the constructor tapped under the name \<^verbatim>\<open>creator\<close> is the first of its hook and every plugin
  handler comes after it. In the run of \<^verbatim>\<open>create()\<close> the handlers of the stage are called in the
  order of the hook, so the first one called is the constructor's, and a handler is called
  only after the one before it has settled.
\<close>

theorem default_handlers_first:
  assumes "s \<in> {ResolveTemplate, Render, Emit, Init}"
    and "extends (new_Creator env ctx options) c"
  shows
   "(\<exists>added. resolveTemplate (hooks (snd (create plugins c w))) =
        (''creator'', creator_resolveTemplate env) # added) \<and>
    (\<exists>added. render (hooks (snd (create plugins c w))) =
        (''creator'', creator_render env) # added) \<and>
    (\<exists>added. emit (hooks (snd (create plugins c w))) =
        (''creator'', creator_emit env) # added) \<and>
    (\<exists>added. init (hooks (snd (create plugins c w))) =
        (''creator'', creator_init env ctx) # added) \<and>
    take (length (handlers_begun s (trace (fst (create plugins c w)))))
      (tap_names (snd (create plugins c w)) s) =
      handlers_begun s (trace (fst (create plugins c w))) \<and>
    (handlers_begun s (trace (fst (create plugins c w))) \<noteq> [] \<longrightarrow>
       hd (handlers_begun s (trace (fst (create plugins c w)))) = ''creator'') \<and>
    scan Idle (trace (fst (create plugins c w))) = Some Idle"
proof -
  let ?after = "snd (create plugins c w)"
  let ?tr = "trace (fst (create plugins c w))"
  have ext: "extends (new_Creator env ctx options) ?after"
    by (rule extends_trans[OF assms(2) create_extends])
  then have regs:
    "\<exists>added. resolveTemplate (hooks ?after) = (''creator'', creator_resolveTemplate env) # added"
    "\<exists>added. render (hooks ?after) = (''creator'', creator_render env) # added"
    "\<exists>added. emit (hooks ?after) = (''creator'', creator_emit env) # added"
    "\<exists>added. init (hooks ?after) = (''creator'', creator_init env ctx) # added"
    by (auto simp: extends_def new_Creator_def)
  have names: "\<exists>rest. tap_names ?after s = ''creator'' # rest"
    using assms(1) regs by auto
  have pre: "take (length (handlers_begun s ?tr)) (tap_names ?after s) = handlers_begun s ?tr"
  proof (cases plugins c w rule: create_cases)
    case (Thrown e)
    then show ?thesis by (simp add: trace_def)
  next
    case (Ran r tr w')
    from create_stages_handlers[OF Ran(1), of s] show ?thesis by (simp add: Ran(2) trace_def)
  qed
  have first: "handlers_begun s ?tr \<noteq> [] \<longrightarrow> hd (handlers_begun s ?tr) = ''creator''"
  proof
    assume ne: "handlers_begun s ?tr \<noteq> []"
    from names obtain rest where "tap_names ?after s = ''creator'' # rest" by blast
    with pre ne show "hd (handlers_begun s ?tr) = ''creator''"
      by (cases "handlers_begun s ?tr") (auto simp: take_Cons')
  qed
  have "scan Idle ?tr = Some Idle"
    using create_stage_order_aux[of plugins c w] .
  with regs pre first show ?thesis by blast
qed

theorem default_handlers_first_witness:
  "Emit \<in> {ResolveTemplate, Render, Emit, Init} \<and>
   extends (new_Creator demo_env ''/proj'' demo_options) demo_creator \<and>
   handlers_begun Emit (trace (fst (create [demo_plugin] demo_creator demo_world))) =
     [''creator'', ''demo-plugin''] \<and>
   hd (handlers_begun Emit (trace (fst (create [demo_plugin] demo_creator demo_world)))) = ''creator'' \<and>
   scan Idle (trace (fst (create [demo_plugin] demo_creator demo_world))) = Some Idle"
proof -
  have s: "Emit \<in> {ResolveTemplate, Render, Emit, Init}" by simp
  have e: "extends (new_Creator demo_env ''/proj'' demo_options) demo_creator"
    by (simp add: demo_creator_def extends_refl)
  note first = default_handlers_first[OF s e, of "[demo_plugin]" demo_world]
  from first have
    "handlers_begun Emit (trace (fst (create [demo_plugin] demo_creator demo_world))) \<noteq> [] \<longrightarrow>
       hd (handlers_begun Emit (trace (fst (create [demo_plugin] demo_creator demo_world)))) = ''creator''"
    and "scan Idle (trace (fst (create [demo_plugin] demo_creator demo_world))) = Some Idle"
    by blast+
  with s e demo_emit_handlers show ?thesis by simp
qed

text \<open>
  Claim C9. \<^verbatim>\<open>installPlugin\<close> on the empty list returns at once: no outside call, the
  world unchanged. On a non-empty list it first installs the named packages in the project;
  if that fails it stops there; otherwise it runs \<^verbatim>\<open>generate(true)\<close> on a generator made for
  exactly those plugin ids, on which it has registered one processor for
  \<^verbatim>\<open>mpflow.config.js\<close>: the add-to-exports transform with field \<^verbatim>\<open>plugins\<close> and exactly those
  ids as items.
\<close>

theorem installPlugin_steps:
  "installPlugin env c [] w = (Inr (), [], w) \<and>
   (pluginNames \<noteq> [] \<longrightarrow>
      (case installNodeModules env (creator_context c) (Some pluginNames) (ext w) of
         (Inl e, x1) \<Rightarrow>
           installPlugin env c pluginNames w =
             (Inl e, [InstallNodeModules (creator_context c) (Some pluginNames)], w\<lparr>ext := x1\<rparr>)
       | (Inr u, x1) \<Rightarrow>
           installPlugin env c pluginNames w =
             (fst (generate env
                \<lparr>gen_context = creator_context c, gen_plugins = pluginNames,
                 gen_processors =
                   [Transform ''creator'' ''mpflow.config.js'' add_to_exports ''plugins'' pluginNames]\<rparr>
                True x1),
              [InstallNodeModules (creator_context c) (Some pluginNames),
               Generate
                \<lparr>gen_context = creator_context c, gen_plugins = pluginNames,
                 gen_processors =
                   [Transform ''creator'' ''mpflow.config.js'' add_to_exports ''plugins'' pluginNames]\<rparr>
                True],
              w\<lparr>ext := snd (generate env
                \<lparr>gen_context = creator_context c, gen_plugins = pluginNames,
                 gen_processors =
                   [Transform ''creator'' ''mpflow.config.js'' add_to_exports ''plugins'' pluginNames]\<rparr>
                True x1)\<rparr>)))"
  by (auto simp: installPlugin_def bind_def call_def ret_def processFile_def new_Generator_def Let_def
        split: prod.splits sum.splits)

theorem installPlugin_steps_witness:
  "[''p1'', ''p2''] \<noteq> ([] :: string list) \<and>
   installPlugin demo_env demo_creator [''p1'', ''p2''] demo_world =
     (Inr (),
      [InstallNodeModules ''/proj'' (Some [''p1'', ''p2'']),
       Generate \<lparr>gen_context = ''/proj'', gen_plugins = [''p1'', ''p2''],
         gen_processors =
           [Transform ''creator'' ''mpflow.config.js''
              ''@mpflow/service-core/lib/codemods/add-to-exports'' ''plugins'' [''p1'', ''p2'']]\<rparr>
        True],
      demo_world)"
  using installPlugin_steps[of demo_env demo_creator demo_world "[''p1'', ''p2'']"]
  by (simp add: demo_env_def demo_creator_def new_Creator_def demo_world_def add_to_exports_def)

text \<open>
  Claim C10. A creator constructed without a project name, app id or template name starts
  the prepare stage with the empty string in the place of each missing field. The later
  stages use what the prepare waterfall resolved to: resolveTemplate gets its template name,
  render its project name and app id. The fields of the creator itself are the same after
  \<^verbatim>\<open>create()\<close> as before.
\<close>

theorem missing_options_become_empty:
  "(opt_projectName options = None \<longrightarrow>
      projectName (initial_infos (new_Creator env ctx options)) = []) \<and>
   (opt_appId options = None \<longrightarrow> appId (initial_infos (new_Creator env ctx options)) = []) \<and>
   (opt_templateName options = None \<longrightarrow>
      templateName (initial_infos (new_Creator env ctx options)) = []) \<and>
   (\<exists>i path a.
      waterfall_flow Prepare (VInfos (initial_infos c)) (trace (fst (create plugins c w))) =
        Some (VInfos i) \<and>
      waterfall_flow ResolveTemplate (VString (templateName i)) (trace (fst (create plugins c w))) =
        Some (VString path) \<and>
      series_flow Render (VRender \<lparr>render_projectName = projectName i, render_appId = appId i,
        templatePath = path\<rparr> a) (trace (fst (create plugins c w)))) \<and>
   creator_projectName (snd (create plugins c w)) = creator_projectName c \<and>
   creator_appId (snd (create plugins c w)) = creator_appId c \<and>
   creator_templateName (snd (create plugins c w)) = creator_templateName c"
proof -
  have "extends c (snd (create plugins c w))" by (rule create_extends)
  then have fields: "creator_projectName (snd (create plugins c w)) = creator_projectName c"
    "creator_appId (snd (create plugins c w)) = creator_appId c"
    "creator_templateName (snd (create plugins c w)) = creator_templateName c"
    by (simp_all add: extends_def)
  have empties: "opt_projectName options = None \<longrightarrow>
      projectName (initial_infos (new_Creator env ctx options)) = []"
    "opt_appId options = None \<longrightarrow> appId (initial_infos (new_Creator env ctx options)) = []"
    "opt_templateName options = None \<longrightarrow>
      templateName (initial_infos (new_Creator env ctx options)) = []"
    by (simp_all add: initial_infos_def new_Creator_def or_empty_def)
  from create_flow[of c plugins w] have
    "\<exists>i path a.
      waterfall_flow Prepare (VInfos (initial_infos c)) (trace (fst (create plugins c w))) =
        Some (VInfos i) \<and>
      waterfall_flow ResolveTemplate (VString (templateName i)) (trace (fst (create plugins c w))) =
        Some (VString path) \<and>
      series_flow Render (VRender \<lparr>render_projectName = projectName i, render_appId = appId i,
        templatePath = path\<rparr> a) (trace (fst (create plugins c w)))"
    by blast
  with fields empties show ?thesis by simp
qed

theorem missing_options_become_empty_witness:
  "opt_projectName demo_bare_options = None \<and> opt_appId demo_bare_options = None \<and>
   opt_templateName demo_bare_options = None \<and>
   initial_infos (new_Creator demo_env ''/proj'' demo_bare_options) =
     \<lparr>projectName = [], appId = [], templateName = []\<rparr> \<and>
   creator_projectName (snd (create [demo_plugin] demo_creator demo_world)) = None \<and>
   HandlerBegin Render ''creator''
     (VRender \<lparr>render_projectName = ''demo'', render_appId = [],
               templatePath = ''/tmp/tmp-1/package/template''\<rparr> 0) (Some [])
     \<in> set (trace (fst (create [demo_plugin] demo_creator demo_world)))"
proof -
  have n: "opt_projectName demo_bare_options = None" "opt_appId demo_bare_options = None"
    "opt_templateName demo_bare_options = None"
    by (simp_all add: demo_bare_options_def)
  note m = missing_options_become_empty[of demo_bare_options demo_env "''/proj''" demo_creator
      "[demo_plugin]" demo_world]
  from m n have "projectName (initial_infos (new_Creator demo_env ''/proj'' demo_bare_options)) = []"
    "appId (initial_infos (new_Creator demo_env ''/proj'' demo_bare_options)) = []"
    "templateName (initial_infos (new_Creator demo_env ''/proj'' demo_bare_options)) = []"
    "creator_projectName (snd (create [demo_plugin] demo_creator demo_world)) =
       creator_projectName demo_creator"
    by blast+
  moreover have "creator_projectName demo_creator = None"
    by (simp add: demo_creator_def new_Creator_def demo_options_def)
  ultimately show ?thesis using n demo_render_event by simp
qed

end
